theory Spec2Isabelle
  imports Main "HOL-Library.Char_ord" "HOL-Library.List_Lexorder" "HOL-Library.Multiset"
begin

section \<open>Dungeon Escape: data model\<close>

text \<open>
  The repository holds two variants of the game: the console program (\<^verbatim>\<open>nogui.cpp\<close>) and
  the SFML program (two copies whose game classes and game loop agree line by line).
  Definitions shared by both keep the source's names; where the variants differ the
  console definition is prefixed \<open>nogui_\<close> and the SFML one \<open>gui_\<close>.

  C++ \<^verbatim>\<open>int\<close> fields are modelled as \<open>int\<close>: every value the game computes from its
  constants (health at most 100, ten moves, five rooms) stays far from the 32-bit range.
\<close>

text \<open>\<^verbatim>\<open>class Character { string name; int health; }\<close> and its derived classes.\<close>

record Character =
  name :: string
  health :: int

record Player = Character +
  inventory :: "string list"
  moves :: int
  coins :: int
  enemiesDefeated :: int

record Enemy = Character +
  description :: string

record Treasure =
  item1 :: string
  item2 :: string
  key :: string

record Room =
  room_name :: string
  enemy :: Enemy
  treasure :: Treasure
  challenge :: string

text \<open>
  A \<^verbatim>\<open>const Room*\<close> always points into the catalog vector (or is null), and every catalog
  entry is its own heap object, so a pointer is modelled by the catalog position it
  points to: \<open>Some i\<close> is the address of the \<open>i\<close>-th room, \<open>None\<close> is \<^verbatim>\<open>nullptr\<close>.
  Pointer equality is equality of positions.
\<close>

type_synonym room_ptr = "nat option"

text \<open>
  \<^verbatim>\<open>class Dungeon\<close>. The stack \<open>roomStack\<close> is a list whose head is the top.
\<close>

record Dungeon =
  rooms :: "Room list"
  enemyQueue :: "Enemy list"
  roomStack :: "nat list"
  currentRoomIndex :: int

section \<open>Character and Player operations\<close>

definition getHealth :: "'a Character_scheme \<Rightarrow> int" where
  "getHealth c = health c"

text \<open>\<^verbatim>\<open>health -= damage; if (health < 0) health = 0;\<close>\<close>

definition takeDamage :: "int \<Rightarrow> 'a Character_scheme \<Rightarrow> 'a Character_scheme" where
  "takeDamage damage c =
     (let h = health c - damage in c\<lparr>health := (if h < 0 then 0 else h)\<rparr>)"

text \<open>\<^verbatim>\<open>Player(string n) : Character(n, 100), moves(10), coins(0), enemiesDefeated(0)\<close>\<close>

definition new_Player :: "string \<Rightarrow> Player" where
  "new_Player n =
     \<lparr>name = n, health = 100, inventory = [], moves = 10, coins = 0, enemiesDefeated = 0\<rparr>"

definition heal :: "int \<Rightarrow> Player \<Rightarrow> Player" where
  "heal amount p =
     (let h = health p + amount in p\<lparr>health := (if h > 100 then 100 else h)\<rparr>)"

definition addToInventory :: "string \<Rightarrow> Player \<Rightarrow> Player" where
  "addToInventory item p = p\<lparr>inventory := inventory p @ [item]\<rparr>"

definition addCoins :: "int \<Rightarrow> Player \<Rightarrow> Player" where
  "addCoins amount p = p\<lparr>coins := coins p + amount\<rparr>"

definition incrementEnemiesDefeated :: "Player \<Rightarrow> Player" where
  "incrementEnemiesDefeated p = p\<lparr>enemiesDefeated := enemiesDefeated p + 1\<rparr>"

definition getMoves :: "Player \<Rightarrow> int" where
  "getMoves p = moves p"

text \<open>Console: \<^verbatim>\<open>void Player::useMove() { moves--; }\<close>\<close>

definition nogui_useMove :: "Player \<Rightarrow> Player" where
  "nogui_useMove p = p\<lparr>moves := moves p - 1\<rparr>"

text \<open>SFML: \<^verbatim>\<open>void useMove() { if (moves > 0) moves--; }\<close>\<close>

definition gui_useMove :: "Player \<Rightarrow> Player" where
  "gui_useMove p = (if moves p > 0 then p\<lparr>moves := moves p - 1\<rparr> else p)"

subsection \<open>Sorting the inventory\<close>

text \<open>
  Both variants call \<^verbatim>\<open>std::list::sort\<close>, which the C++ standard specifies as a stable
  sort under the given comparison. A stable sort has exactly one result, the one that
  insertion sort computes, so the library call is modelled by insertion: an element
  moves past the elements that are less than it under \<open>cmp\<close> and stops in front of the
  first one that is not, so elements that compare equal keep their order.
\<close>

fun list_insert :: "('a \<Rightarrow> 'a \<Rightarrow> bool) \<Rightarrow> 'a \<Rightarrow> 'a list \<Rightarrow> 'a list" where
  "list_insert cmp x [] = [x]"
| "list_insert cmp x (y # ys) =
     (if cmp y x then y # list_insert cmp x ys else x # y # ys)"

definition list_sort :: "('a \<Rightarrow> 'a \<Rightarrow> bool) \<Rightarrow> 'a list \<Rightarrow> 'a list" where
  "list_sort cmp xs = foldr (list_insert cmp) xs []"

text \<open>
  \<^verbatim>\<open>::tolower\<close> in the "C" locale: the letters \<open>A\<close> to \<open>Z\<close> move to \<open>a\<close> to \<open>z\<close>, every
  other character is returned as it is.
\<close>

definition tolower :: "char \<Rightarrow> char" where
  "tolower c =
     (if CHR ''A'' \<le> c \<and> c \<le> CHR ''Z'' then char_of (of_char c + (32::nat)) else c)"

text \<open>
  The lambda of the SFML \<^verbatim>\<open>sortInventory\<close>: both strings are lowered with
  \<^verbatim>\<open>transform(..., ::tolower)\<close> and compared with \<^verbatim>\<open>lowerA < lowerB\<close>, the lexicographic
  order of \<^verbatim>\<open>std::string\<close> on character codes.
\<close>

definition lower_less :: "string \<Rightarrow> string \<Rightarrow> bool" where
  "lower_less a b = (map tolower a < map tolower b)"

definition gui_sortInventory :: "Player \<Rightarrow> Player" where
  "gui_sortInventory p = p\<lparr>inventory := list_sort lower_less (inventory p)\<rparr>"

text \<open>Console: \<^verbatim>\<open>inventory.sort();\<close>, the list's sort with \<^verbatim>\<open>operator<\<close> of the strings.\<close>

definition nogui_sortInventory :: "Player \<Rightarrow> Player" where
  "nogui_sortInventory p = p\<lparr>inventory := list_sort (<) (inventory p)\<rparr>"

section \<open>The dungeon\<close>

text \<open>
  The five rooms that both \<^verbatim>\<open>Dungeon\<close> constructors create, in the order in which they
  are pushed into the catalog.
\<close>

definition catalog :: "Room list" where
  "catalog =
     [\<lparr>room_name = ''Base'',
       enemy = \<lparr>name = ''Shadow Stalker'', health = 15,
                description = ''A stealthy, dark creature.''\<rparr>,
       treasure = \<lparr>item1 = ''5 Coins'', item2 = ''Armour'', key = ''Key1''\<rparr>,
       challenge = ''Collect 5 coins''\<rparr>,
      \<lparr>room_name = ''Bronze'',
       enemy = \<lparr>name = ''Viper'', health = 25, description = ''A venomous menace.''\<rparr>,
       treasure = \<lparr>item1 = ''5 Coins'', item2 = ''Health Booster Potion'', key = ''Key2''\<rparr>,
       challenge = ''Exit the room within 5 seconds''\<rparr>,
      \<lparr>room_name = ''Platinum'',
       enemy = \<lparr>name = ''Crawler'', health = 35,
                description = ''A fast, wall-climbing creature.''\<rparr>,
       treasure = \<lparr>item1 = ''Health Booster Potion'', item2 = ''Armour'', key = ''Key3''\<rparr>,
       challenge = ''Defeat the enemy without armour''\<rparr>,
      \<lparr>room_name = ''Silver'',
       enemy = \<lparr>name = ''Hunter'', health = 50,
                description = ''A swift and deadly assassin.''\<rparr>,
       treasure = \<lparr>item1 = ''5 Coins'', item2 = ''Armour'', key = ''Key4''\<rparr>,
       challenge = ''Riddle: I have no voice, but I can teach you all I know. What am I? (Answer: book)''\<rparr>,
      \<lparr>room_name = ''Gold'',
       enemy = \<lparr>name = ''Boss'', health = 70, description = ''The ultimate challenge.''\<rparr>,
       treasure = \<lparr>item1 = ''5 Coins'', item2 = ''Health Booster Potion'', key = ''Key5''\<rparr>,
       challenge = ''Defeat the boss''\<rparr>]"

text \<open>Console: \<^verbatim>\<open>Dungeon::Dungeon() : currentRoomIndex(-1)\<close>, "start before the first room".\<close>

definition nogui_Dungeon :: Dungeon where
  "nogui_Dungeon =
     \<lparr>rooms = catalog, enemyQueue = map enemy catalog, roomStack = [],
      currentRoomIndex = - 1\<rparr>"

text \<open>SFML: \<^verbatim>\<open>Dungeon() : currentRoomIndex(0)\<close>.\<close>

definition gui_Dungeon :: Dungeon where
  "gui_Dungeon =
     \<lparr>rooms = catalog, enemyQueue = map enemy catalog, roomStack = [],
      currentRoomIndex = 0\<rparr>"

text \<open>Reading the room a pointer points to; \<open>None\<close> when the pointer is null.\<close>

definition deref :: "Dungeon \<Rightarrow> room_ptr \<Rightarrow> Room option" where
  "deref d r =
     (case r of None \<Rightarrow> None
      | Some i \<Rightarrow> if i < length (rooms d) then Some (rooms d ! i) else None)"

subsection \<open>Console navigation\<close>

text \<open>
  \<^verbatim>\<open>if (currentRoomIndex >= 0 && currentRoomIndex < rooms.size()) return rooms[currentRoomIndex].get();
  return nullptr;\<close>
\<close>

definition nogui_getCurrentRoom :: "Dungeon \<Rightarrow> room_ptr" where
  "nogui_getCurrentRoom d =
     (if currentRoomIndex d \<ge> 0 \<and> currentRoomIndex d < int (length (rooms d))
      then Some (nat (currentRoomIndex d)) else None)"

text \<open>
  \<^verbatim>\<open>if (currentRoomIndex < (int)rooms.size() - 1) {
      currentRoomIndex++;
      const Room* nextRoom = rooms[currentRoomIndex].get();
      roomStack.push(nextRoom);
      return nextRoom;
  }
  return nullptr;\<close>
  The vector is indexed without a check. An index below \<open>-1\<close> would make the read
  \<^verbatim>\<open>rooms[currentRoomIndex]\<close> undefined behaviour; the model returns \<open>None\<close> for the
  whole call there, and \<open>Some (pointer, dungeon)\<close> wherever the call is defined.
\<close>

definition nogui_advanceToNextRoom :: "Dungeon \<Rightarrow> (room_ptr \<times> Dungeon) option" where
  "nogui_advanceToNextRoom d =
     (if currentRoomIndex d < int (length (rooms d)) - 1 then
        (let i = currentRoomIndex d + 1 in
         if i < 0 then None
         else Some (Some (nat i),
                    d\<lparr>roomStack := nat i # roomStack d, currentRoomIndex := i\<rparr>))
      else Some (None, d))"

text \<open>
  The search loop of both \<^verbatim>\<open>backtrack\<close> functions:
  \<^verbatim>\<open>for (size_t i = 0; i < rooms.size(); ++i) if (rooms[i].get() == previousRoom) { currentRoomIndex = i; break; }\<close>
\<close>

definition find_room :: "Dungeon \<Rightarrow> nat \<Rightarrow> nat option" where
  "find_room d previousRoom = find (\<lambda>i. i = previousRoom) [0 ..< length (rooms d)]"

text \<open>
  \<^verbatim>\<open>if (roomStack.size() > 1) { roomStack.pop(); previousRoom = roomStack.top(); (search loop) return previousRoom; }
  return nullptr;\<close>
  When the loop finds no position the index stays as it is.
\<close>

definition nogui_backtrack :: "Dungeon \<Rightarrow> room_ptr \<times> Dungeon" where
  "nogui_backtrack d =
     (case roomStack d of
        cur # previousRoom # rest \<Rightarrow>
          (let d1 = d\<lparr>roomStack := previousRoom # rest\<rparr> in
           (Some previousRoom,
            case find_room d1 previousRoom of
              Some i \<Rightarrow> d1\<lparr>currentRoomIndex := int i\<rparr>
            | None \<Rightarrow> d1))
      | _ \<Rightarrow> (None, d))"

subsection \<open>SFML navigation\<close>

datatype exception = out_of_range

text \<open>
  \<^verbatim>\<open>const T *getAsset(size_t index) const\<close> of \<^verbatim>\<open>GameAssetManager\<close>: the pointer to the
  asset at \<open>index\<close>, or the exception \<^verbatim>\<open>out_of_range\<close>.
\<close>

definition getAsset :: "Dungeon \<Rightarrow> nat \<Rightarrow> exception + nat" where
  "getAsset d index = (if index < length (rooms d) then Inr index else Inl out_of_range)"

text \<open>
  The callers pass the \<^verbatim>\<open>int\<close> \<open>currentRoomIndex\<close> where a \<^verbatim>\<open>size_t\<close> is expected: the
  conversion adds \<open>2 ^ 64\<close> to a negative index, which becomes a huge one.
\<close>

definition to_size_t :: "int \<Rightarrow> nat" where
  "to_size_t i = (if i < 0 then nat (2 ^ 64 + i) else nat i)"

text \<open>\<^verbatim>\<open>try { return roomManager.getAsset(currentRoomIndex); } catch (...) { return nullptr; }\<close>\<close>

definition gui_getCurrentRoom :: "Dungeon \<Rightarrow> room_ptr" where
  "gui_getCurrentRoom d =
     (case getAsset d (to_size_t (currentRoomIndex d)) of
        Inr r \<Rightarrow> Some r | Inl e \<Rightarrow> None)"

text \<open>
  \<^verbatim>\<open>advanceToNextRoom\<close> of the SFML variant: inside the outer bound check the current
  room, when the index is valid, is pushed; the index is incremented; the room at the new
  index is returned when the index is below the count. Every \<^verbatim>\<open>catch\<close> returns null.
\<close>

definition gui_advanceToNextRoom :: "Dungeon \<Rightarrow> room_ptr \<times> Dungeon" where
  "gui_advanceToNextRoom d =
     (let n = int (length (rooms d)) in
      if currentRoomIndex d < n then
        (case (if currentRoomIndex d \<ge> 0 \<and> currentRoomIndex d < n
               then (case getAsset d (to_size_t (currentRoomIndex d)) of
                       Inr current \<Rightarrow> Inr (d\<lparr>roomStack := current # roomStack d\<rparr>)
                     | Inl e \<Rightarrow> Inl e)
               else Inr d) of
           Inl e \<Rightarrow> (None, d)
         | Inr d1 \<Rightarrow>
             (let d2 = d1\<lparr>currentRoomIndex := currentRoomIndex d1 + 1\<rparr> in
              if currentRoomIndex d2 < n then
                (case getAsset d2 (to_size_t (currentRoomIndex d2)) of
                   Inr nextRoom \<Rightarrow> (Some nextRoom, d2)
                 | Inl e \<Rightarrow> (None, d2))
              else (None, d2)))
      else (None, d))"

text \<open>
  The search loop of the SFML \<^verbatim>\<open>backtrack\<close> compares \<^verbatim>\<open>roomManager.getAsset(i)\<close> with
  the previous room for every \<open>i\<close> below the count; an exception inside the loop is logged
  and the loop goes on.
\<close>

definition gui_find_room :: "Dungeon \<Rightarrow> nat \<Rightarrow> nat option" where
  "gui_find_room d prevRoom =
     find (\<lambda>i. getAsset d i = Inr prevRoom) [0 ..< length (rooms d)]"

text \<open>
  \<^verbatim>\<open>if (roomStack.size() > 1) { roomStack.pop(); if (!roomStack.empty()) { prevRoom = roomStack.top(); (search loop) return prevRoom; } }
  return nullptr;\<close>
\<close>

definition gui_backtrack :: "Dungeon \<Rightarrow> room_ptr \<times> Dungeon" where
  "gui_backtrack d =
     (if length (roomStack d) > 1 then
        (let d1 = d\<lparr>roomStack := tl (roomStack d)\<rparr> in
         case roomStack d1 of
           prevRoom # rest \<Rightarrow>
             (Some prevRoom,
              case gui_find_room d1 prevRoom of
                Some i \<Rightarrow> d1\<lparr>currentRoomIndex := int i\<rparr>
              | None \<Rightarrow> d1)
         | [] \<Rightarrow> (None, d1))
      else (None, d))"

section \<open>The console game loop\<close>

text \<open>
  How a game ends. The constructors stand for the messages of the two programs:
  \<^item> \<open>Escaped\<close>: "Congratulations! You cleared the final room and escaped the dungeon!",
    "Congratulations! You snuck out of the final room and escaped!" (console),
    "Congratulations! You escaped!" (SFML);
  \<^item> \<open>CriticalHealth\<close>: "Game Over! Your health dropped below 20." (console),
    "Game Over! Your health is critical." (SFML);
  \<^item> \<open>OutOfMoves\<close>: "Game Over! You ran out of moves.";
  \<^item> \<open>QuitGame\<close>: "You have quit the dungeon.";
  \<^item> \<open>NoRooms\<close>: "Error: No rooms available." (SFML only).
\<close>

datatype ending = Escaped | CriticalHealth | OutOfMoves | QuitGame | NoRooms

text \<open>
  What one \<^verbatim>\<open>case\<close> of the console \<^verbatim>\<open>switch\<close> leaves behind: \<open>Next\<close> when control reaches
  the recursive call at the end of \<^verbatim>\<open>gameLoop\<close>, \<open>Over\<close> when the case calls
  \<^verbatim>\<open>displayRanking(player)\<close> and returns, \<open>Fault\<close> when the case runs into undefined
  behaviour.
\<close>

datatype step = Next Player Dungeon | Over ending Player Dungeon | Fault

text \<open>\<^verbatim>\<open>case 1\<close> of the console \<^verbatim>\<open>switch\<close>, lines 369 to 392.\<close>

definition nogui_fight :: "Player \<Rightarrow> Room \<Rightarrow> Dungeon \<Rightarrow> step" where
  "nogui_fight player currentRoom dungeon =
     (let e = enemy currentRoom in
      if getHealth player \<ge> getHealth e then
        (let player1 = takeDamage (getHealth e) player;
             player2 = addToInventory (item1 (treasure currentRoom)) player1;
             player3 = addToInventory (item2 (treasure currentRoom)) player2;
             player4 = addCoins 10 player3;
             player5 = incrementEnemiesDefeated player4
         in case nogui_advanceToNextRoom dungeon of
              None \<Rightarrow> Fault
            | Some (None, dungeon1) \<Rightarrow> Over Escaped (nogui_sortInventory player5) dungeon1
            | Some (Some nextRoom, dungeon1) \<Rightarrow> Next player5 dungeon1)
      else Next (takeDamage 10 player) dungeon)"

text \<open>\<^verbatim>\<open>case 2\<close>, lines 393 to 404.\<close>

definition nogui_bypass :: "Player \<Rightarrow> Dungeon \<Rightarrow> step" where
  "nogui_bypass player dungeon =
     (let player1 = takeDamage 5 player
      in case nogui_advanceToNextRoom dungeon of
           None \<Rightarrow> Fault
         | Some (None, dungeon1) \<Rightarrow> Over Escaped (nogui_sortInventory player1) dungeon1
         | Some (Some nextRoom, dungeon1) \<Rightarrow> Next player1 dungeon1)"

text \<open>
  The \<^verbatim>\<open>switch\<close>: 1 fights, 2 bypasses, 3 backtracks (the result only selects a message),
  4 quits without sorting, anything else loses the turn.
\<close>

definition nogui_switch :: "int \<Rightarrow> Player \<Rightarrow> Room \<Rightarrow> Dungeon \<Rightarrow> step" where
  "nogui_switch choice player currentRoom dungeon =
     (if choice = 1 then nogui_fight player currentRoom dungeon
      else if choice = 2 then nogui_bypass player dungeon
      else if choice = 3 then Next player (snd (nogui_backtrack dungeon))
      else if choice = 4 then Over QuitGame player dungeon
      else Next player dungeon)"

text \<open>
  The result of \<^verbatim>\<open>gameLoop\<close> on a finite prefix of the standard input. \<open>GameOver e p d\<close>:
  the game ended with \<open>e\<close> and \<^verbatim>\<open>displayRanking\<close> printed the player \<open>p\<close>.
  \<open>AwaitingInput\<close>: the prefix is used up and the program waits at \<^verbatim>\<open>cin >> choice\<close>.
  \<open>Crashed\<close>: a null pointer was dereferenced or the vector was read out of range.
\<close>

datatype result = GameOver ending Player Dungeon | AwaitingInput Player Dungeon | Crashed

text \<open>
  \<^verbatim>\<open>void gameLoop(Player& player, Dungeon& dungeon)\<close>. An input token is \<open>Some n\<close> for a
  number read by \<^verbatim>\<open>cin >> choice\<close> and \<open>None\<close> for input on which \<^verbatim>\<open>cin.fail()\<close> holds;
  the latter restarts the turn without using a move.
\<close>

fun gameLoop :: "Player \<Rightarrow> Dungeon \<Rightarrow> int option list \<Rightarrow> result" where
  "gameLoop player dungeon input =
     (if getHealth player < 20 then GameOver CriticalHealth player dungeon
      else if getMoves player \<le> 0 then GameOver OutOfMoves player dungeon
      else
        (case (case nogui_getCurrentRoom dungeon of
                 None \<Rightarrow> nogui_advanceToNextRoom dungeon
               | Some r \<Rightarrow> Some (Some r, dungeon)) of
           None \<Rightarrow> Crashed
         | Some (currentRoom, dungeon1) \<Rightarrow>
             (case deref dungeon1 currentRoom of
                None \<Rightarrow> Crashed
              | Some room \<Rightarrow>
                  (case input of
                     [] \<Rightarrow> AwaitingInput player dungeon1
                   | None # rest \<Rightarrow> gameLoop player dungeon1 rest
                   | Some choice # rest \<Rightarrow>
                       (case nogui_switch choice (nogui_useMove player) room dungeon1 of
                          Next player1 dungeon2 \<Rightarrow> gameLoop player1 dungeon2 rest
                        | Over e player1 dungeon2 \<Rightarrow> GameOver e player1 dungeon2
                        | Fault \<Rightarrow> Crashed)))))"

section \<open>The SFML game loop\<close>

datatype GameState = NAME_INPUT | INSTRUCTIONS | PLAYING | GAME_OVER

text \<open>
  The variables of \<^verbatim>\<open>gameLoopWithGUI\<close> that the game logic reads and writes. The
  \<^verbatim>\<open>message\<close> string is shown by the view only and is left out.
\<close>

record gui_state =
  player :: Player
  dungeon :: Dungeon
  gameState :: GameState
  currentRoom :: room_ptr
  gameOverMessage :: "ending option"

text \<open>
  \<^verbatim>\<open>case 1\<close> of the SFML \<^verbatim>\<open>switch\<close>, lines 1045 to 1064. The case reads
  \<^verbatim>\<open>currentRoom->getEnemy()\<close>: the result is \<open>None\<close> when \<open>currentRoom\<close> is null.
\<close>

definition gui_fight :: "gui_state \<Rightarrow> gui_state option" where
  "gui_fight s =
     (case deref (dungeon s) (currentRoom s) of
        None \<Rightarrow> None
      | Some room \<Rightarrow>
          (let e = enemy room in
           if getHealth (player s) \<ge> getHealth e then
             (let player1 = takeDamage (getHealth e) (player s);
                  player2 = addToInventory (item1 (treasure room)) player1;
                  player3 = addToInventory (item2 (treasure room)) player2;
                  player4 = addCoins 10 player3;
                  player5 = incrementEnemiesDefeated player4;
                  (nextRoom, dungeon1) = gui_advanceToNextRoom (dungeon s)
              in Some (s\<lparr>player := player5, dungeon := dungeon1, currentRoom := nextRoom\<rparr>))
           else Some (s\<lparr>player := takeDamage 10 (player s)\<rparr>)))"

text \<open>\<^verbatim>\<open>case 2\<close>, lines 1065 to 1069.\<close>

definition gui_bypass :: "gui_state \<Rightarrow> gui_state" where
  "gui_bypass s =
     (let player1 = takeDamage 5 (player s);
          (nextRoom, dungeon1) = gui_advanceToNextRoom (dungeon s)
      in s\<lparr>player := player1, dungeon := dungeon1, currentRoom := nextRoom\<rparr>)"

text \<open>\<^verbatim>\<open>case 3\<close>: \<open>currentRoom\<close> changes only when \<^verbatim>\<open>backtrack\<close> returned a room.\<close>

definition gui_backtrack_case :: "gui_state \<Rightarrow> gui_state" where
  "gui_backtrack_case s =
     (let (previousRoom, dungeon1) = gui_backtrack (dungeon s)
      in case previousRoom of
           Some r \<Rightarrow> s\<lparr>dungeon := dungeon1, currentRoom := Some r\<rparr>
         | None \<Rightarrow> s\<lparr>dungeon := dungeon1\<rparr>)"

definition gui_quit :: "gui_state \<Rightarrow> gui_state" where
  "gui_quit s = s\<lparr>gameState := GAME_OVER, gameOverMessage := Some QuitGame\<rparr>"

text \<open>The \<^verbatim>\<open>switch\<close> has no \<^verbatim>\<open>default\<close>: any other positive choice only costs the move.\<close>

definition gui_switch :: "int \<Rightarrow> gui_state \<Rightarrow> gui_state option" where
  "gui_switch choice s =
     (if choice = 1 then gui_fight s
      else if choice = 2 then Some (gui_bypass s)
      else if choice = 3 then Some (gui_backtrack_case s)
      else if choice = 4 then Some (gui_quit s)
      else Some s)"

text \<open>"Check for win/lose conditions after an action", lines 1090 to 1107.\<close>

definition gui_check :: "gui_state \<Rightarrow> gui_state" where
  "gui_check s =
     (if gameState s = PLAYING then
        (if currentRoom s = None
         then s\<lparr>gameState := GAME_OVER, gameOverMessage := Some Escaped\<rparr>
         else if getHealth (player s) < 20
         then s\<lparr>gameState := GAME_OVER, gameOverMessage := Some CriticalHealth\<rparr>
         else if getMoves (player s) \<le> 0
         then s\<lparr>gameState := GAME_OVER, gameOverMessage := Some OutOfMoves\<rparr>
         else s)
      else s)"

text \<open>"First time entering PLAYING state, initialize the first room", lines 1025 to 1037.\<close>

definition gui_enter :: "gui_state \<Rightarrow> gui_state" where
  "gui_enter s =
     (if currentRoom s = None then
        (let (r, dungeon1) = gui_advanceToNextRoom (dungeon s)
         in case r of
              None \<Rightarrow> s\<lparr>dungeon := dungeon1, currentRoom := None,
                        gameState := GAME_OVER, gameOverMessage := Some NoRooms\<rparr>
            | Some i \<Rightarrow> s\<lparr>dungeon := dungeon1, currentRoom := Some i\<rparr>)
      else s)"

text \<open>
  One pass through the body of the \<^verbatim>\<open>while (gui.isOpen())\<close> loop, after the events of the
  frame have been handled and have left \<open>choice\<close> (\<open>-1\<close> when no button was pressed):
  the game logic runs while the state is \<open>PLAYING\<close>, and the inventory is sorted whenever
  the state is \<open>GAME_OVER\<close> at the end of the pass.
\<close>

definition gui_frame :: "gui_state \<Rightarrow> int \<Rightarrow> gui_state option" where
  "gui_frame s choice =
     (case (if gameState s = PLAYING then
              (let s1 = gui_enter s in
               if choice > 0 then
                 (case gui_switch choice (s1\<lparr>player := gui_useMove (player s1)\<rparr>) of
                    None \<Rightarrow> None
                  | Some s2 \<Rightarrow> Some (gui_check s2))
               else Some s1)
            else Some s) of
        None \<Rightarrow> None
      | Some s3 \<Rightarrow>
          Some (if gameState s3 = GAME_OVER
                then s3\<lparr>player := gui_sortInventory (player s3)\<rparr> else s3))"

text \<open>
  \<^verbatim>\<open>gameLoopWithGUI\<close> from the first frame in which the state is \<open>PLAYING\<close>: the name and
  instruction screens before it touch neither the player nor the dungeon. The list holds
  the choice of each frame; \<open>None\<close> is a null pointer dereference.
\<close>

definition gui_start :: "string \<Rightarrow> gui_state" where
  "gui_start n =
     \<lparr>player = new_Player n, dungeon = gui_Dungeon, gameState = PLAYING,
      currentRoom = None, gameOverMessage = None\<rparr>"

fun gameLoopWithGUI :: "gui_state \<Rightarrow> int list \<Rightarrow> gui_state option" where
  "gameLoopWithGUI s [] = Some s"
| "gameLoopWithGUI s (choice # rest) =
     (case gui_frame s choice of
        None \<Rightarrow> None
      | Some s1 \<Rightarrow> gameLoopWithGUI s1 rest)"

section \<open>Auxiliary definitions for the statements\<close>

text \<open>
  The console dungeon standing in its last room, "Gold": the state that five calls of
  \<^verbatim>\<open>advanceToNextRoom\<close> on a new console dungeon produce.
\<close>

definition nogui_last_room :: Dungeon where
  "nogui_last_room =
     \<lparr>rooms = catalog, enemyQueue = map enemy catalog, roomStack = [4, 3, 2, 1, 0],
      currentRoomIndex = 4\<rparr>"

text \<open>The SFML dungeon after the first call of \<^verbatim>\<open>advanceToNextRoom\<close>.\<close>

definition gui_first_advance :: Dungeon where
  "gui_first_advance =
     \<lparr>rooms = catalog, enemyQueue = map enemy catalog, roomStack = [0],
      currentRoomIndex = 1\<rparr>"

text \<open>
  Any sequence of navigation calls on an SFML dungeon: the two member functions that
  change a \<^verbatim>\<open>Dungeon\<close> after its construction.
\<close>

datatype nav = Advance | Backtrack

fun gui_navigate :: "Dungeon \<Rightarrow> nav list \<Rightarrow> Dungeon" where
  "gui_navigate d [] = d"
| "gui_navigate d (Advance # ops) = gui_navigate (snd (gui_advanceToNextRoom d)) ops"
| "gui_navigate d (Backtrack # ops) = gui_navigate (snd (gui_backtrack d)) ops"

text \<open>
  The mutating member functions of \<^verbatim>\<open>Player\<close>, so that "every sequence of player
  operations" can be written down, and their effect in each variant.
\<close>

datatype player_op =
  Heal int | TakeDamage int | AddToInventory string | AddCoins int | UseMove
  | IncrementEnemiesDefeated | SortInventory

fun gui_player_op :: "player_op \<Rightarrow> Player \<Rightarrow> Player" where
  "gui_player_op (Heal amount) p = heal amount p"
| "gui_player_op (TakeDamage damage) p = takeDamage damage p"
| "gui_player_op (AddToInventory item) p = addToInventory item p"
| "gui_player_op (AddCoins amount) p = addCoins amount p"
| "gui_player_op UseMove p = gui_useMove p"
| "gui_player_op IncrementEnemiesDefeated p = incrementEnemiesDefeated p"
| "gui_player_op SortInventory p = gui_sortInventory p"

fun nogui_player_op :: "player_op \<Rightarrow> Player \<Rightarrow> Player" where
  "nogui_player_op (Heal amount) p = heal amount p"
| "nogui_player_op (TakeDamage damage) p = takeDamage damage p"
| "nogui_player_op (AddToInventory item) p = addToInventory item p"
| "nogui_player_op (AddCoins amount) p = addCoins amount p"
| "nogui_player_op UseMove p = nogui_useMove p"
| "nogui_player_op IncrementEnemiesDefeated p = incrementEnemiesDefeated p"
| "nogui_player_op SortInventory p = nogui_sortInventory p"

text \<open>The player and the ending that a result of the console loop carries.\<close>

fun result_player :: "result \<Rightarrow> Player option" where
  "result_player (GameOver e p d) = Some p"
| "result_player (AwaitingInput p d) = Some p"
| "result_player Crashed = None"

fun result_ending :: "result \<Rightarrow> ending option" where
  "result_ending (GameOver e p d) = Some e"
| "result_ending (AwaitingInput p d) = None"
| "result_ending Crashed = None"

text \<open>
  The player after a won fight in \<open>room\<close>, in the words of the claim: health down by
  the enemy's threshold, the two treasure items appended, ten coins more, one more enemy
  defeated.
\<close>

definition won_fight :: "Player \<Rightarrow> Room \<Rightarrow> Player" where
  "won_fight p room =
     p\<lparr>health := health p - health (enemy room),
       inventory := inventory p @ [item1 (treasure room), item2 (treasure room)],
       coins := coins p + 10,
       enemiesDefeated := enemiesDefeated p + 1\<rparr>"

text \<open>The console dungeon standing in its first room, "Base", after the first advance.\<close>

definition nogui_first_room :: Dungeon where
  "nogui_first_room =
     \<lparr>rooms = catalog, enemyQueue = map enemy catalog, roomStack = [0],
      currentRoomIndex = 0\<rparr>"

text \<open>
  The SFML game after its first frame without a choice: the first advance has been made
  and the player stands in "Bronze".
\<close>

definition gui_entered :: gui_state where
  "gui_entered =
     \<lparr>player = new_Player ''p'', dungeon = gui_first_advance, gameState = PLAYING,
      currentRoom = Some 1, gameOverMessage = None\<rparr>"

text \<open>
  The SFML game in the last room, "Gold", with health 85 and one move left, as nine
  frames leave it: six that only cost a move (a choice above 4) and three bypasses.
\<close>

definition gui_gold :: gui_state where
  "gui_gold =
     \<lparr>player = \<lparr>name = ''p'', health = 85, inventory = [], moves = 1, coins = 0,
                enemiesDefeated = 0\<rparr>,
      dungeon = \<lparr>rooms = catalog, enemyQueue = map enemy catalog, roomStack = [3, 2, 1, 0],
                 currentRoomIndex = 4\<rparr>,
      gameState = PLAYING, currentRoom = Some 4, gameOverMessage = None\<rparr>"

text \<open>
  The console player in "Gold" with health 80 and one move left, after five lost turns
  (an invalid choice) and four bypasses.
\<close>

definition nogui_gold_player :: Player where
  "nogui_gold_player =
     \<lparr>name = ''p'', health = 80, inventory = [], moves = 1, coins = 0, enemiesDefeated = 0\<rparr>"

text \<open>What a won fight against the boss makes of the two states above.\<close>

definition gui_escaped :: gui_state where
  "gui_escaped =
     \<lparr>player = \<lparr>name = ''p'', health = 15,
                inventory = [''5 Coins'', ''Health Booster Potion''], moves = 0, coins = 10,
                enemiesDefeated = 1\<rparr>,
      dungeon = \<lparr>rooms = catalog, enemyQueue = map enemy catalog,
                 roomStack = [4, 3, 2, 1, 0], currentRoomIndex = 5\<rparr>,
      gameState = GAME_OVER, currentRoom = None, gameOverMessage = Some Escaped\<rparr>"

definition nogui_escaped_player :: Player where
  "nogui_escaped_player =
     \<lparr>name = ''p'', health = 10, inventory = [''5 Coins'', ''Health Booster Potion''],
      moves = 0, coins = 10, enemiesDefeated = 1\<rparr>"

text \<open>The two equations between the loot counters of a player.\<close>

definition loot_invariant :: "Player \<Rightarrow> bool" where
  "loot_invariant p \<longleftrightarrow>
     coins p = 10 * enemiesDefeated p \<and> int (length (inventory p)) = 2 * enemiesDefeated p"

text \<open>
  What keeps the SFML loop away from a null or dangling room pointer: the dungeon holds
  the catalog, its index is not negative and its stack holds catalog positions; while the
  game is played the current room is a catalog position, or it is still null and the
  first advance will find a room.
\<close>

definition gui_dungeon_safe :: "Dungeon \<Rightarrow> bool" where
  "gui_dungeon_safe d \<longleftrightarrow>
     rooms d = catalog \<and> 0 \<le> currentRoomIndex d \<and> (\<forall>i \<in> set (roomStack d). i < 5)"

definition gui_safe :: "gui_state \<Rightarrow> bool" where
  "gui_safe s \<longleftrightarrow>
     gui_dungeon_safe (dungeon s) \<and>
     (gameState s = PLAYING \<longrightarrow>
        (case currentRoom s of
           None \<Rightarrow> currentRoomIndex (dungeon s) < 4
         | Some i \<Rightarrow> i < 5))"





section \<open>Navigation: the stack and the room index\<close>

lemma length_catalog: "length catalog = 5"
  by (simp add: catalog_def)

lemma gui_advance_current:
  assumes "0 \<le> currentRoomIndex d" "currentRoomIndex d < int (length (rooms d))"
  shows "gui_advanceToNextRoom d =
     (if currentRoomIndex d + 1 < int (length (rooms d))
      then Some (nat (currentRoomIndex d + 1)) else None,
      d\<lparr>roomStack := nat (currentRoomIndex d) # roomStack d,
        currentRoomIndex := currentRoomIndex d + 1\<rparr>)"
  using assms
  by (simp add: gui_advanceToNextRoom_def Let_def getAsset_def to_size_t_def nat_less_iff)

lemma gui_getCurrentRoom_current:
  assumes "0 \<le> currentRoomIndex d" "currentRoomIndex d < int (length (rooms d))"
  shows "gui_getCurrentRoom d = Some (nat (currentRoomIndex d))"
  using assms by (simp add: gui_getCurrentRoom_def getAsset_def to_size_t_def nat_less_iff)

lemma nogui_advance_current:
  assumes "- 1 \<le> currentRoomIndex d"
  shows "nogui_advanceToNextRoom d =
     (if currentRoomIndex d + 1 < int (length (rooms d))
      then Some (Some (nat (currentRoomIndex d + 1)),
                 d\<lparr>roomStack := nat (currentRoomIndex d + 1) # roomStack d,
                   currentRoomIndex := currentRoomIndex d + 1\<rparr>)
      else Some (None, d))"
  using assms
  by (auto simp add: nogui_advanceToNextRoom_def Let_def)

text \<open>
  Claim C3. With an empty or a single-entry room stack, \<^verbatim>\<open>backtrack()\<close> returns the null
  pointer and leaves the dungeon (room index, stack and catalog) exactly as it was, in the
  console and in the SFML variant.
\<close>

theorem backtrack_short_stack:
  "length (roomStack d) \<le> 1 \<Longrightarrow>
     nogui_backtrack d = (None, d) \<and> gui_backtrack d = (None, d)"
  by (cases "roomStack d"; cases "tl (roomStack d)")
     (simp_all add: nogui_backtrack_def gui_backtrack_def)

text \<open>
  Each variant after its first advance: the stack has one entry and the backtrack fails.
\<close>

theorem backtrack_short_stack_witness:
  "length (roomStack nogui_first_room) \<le> 1 \<and>
   nogui_backtrack nogui_first_room = (None, nogui_first_room) \<and>
   length (roomStack gui_first_advance) \<le> 1 \<and>
   gui_backtrack gui_first_advance = (None, gui_first_advance)"
  using backtrack_short_stack [of nogui_first_room]
    backtrack_short_stack [of gui_first_advance]
  by (simp add: gui_first_advance_def nogui_first_room_def)

text \<open>
  Claim C2, as the code has it. When a current room exists, the SFML
  \<^verbatim>\<open>advanceToNextRoom()\<close> pushes that room, increments the index and returns the room at
  the new index, or null when the new index is the room count; its stack grows by one
  entry on every such call. The console \<^verbatim>\<open>advanceToNextRoom()\<close> increments first and
  pushes and returns the new room, and in the last room it returns null and changes
  neither the index nor the stack.
\<close>

theorem advanceToNextRoom_from_current_room:
  "0 \<le> currentRoomIndex d \<Longrightarrow> currentRoomIndex d < int (length (rooms d)) \<Longrightarrow>
     gui_getCurrentRoom d = Some (nat (currentRoomIndex d)) \<and>
     gui_advanceToNextRoom d =
       (if currentRoomIndex d + 1 < int (length (rooms d))
        then Some (nat (currentRoomIndex d + 1)) else None,
        d\<lparr>roomStack := nat (currentRoomIndex d) # roomStack d,
          currentRoomIndex := currentRoomIndex d + 1\<rparr>) \<and>
     nogui_getCurrentRoom d = Some (nat (currentRoomIndex d)) \<and>
     nogui_advanceToNextRoom d =
       (if currentRoomIndex d + 1 < int (length (rooms d))
        then Some (Some (nat (currentRoomIndex d + 1)),
                   d\<lparr>roomStack := nat (currentRoomIndex d + 1) # roomStack d,
                     currentRoomIndex := currentRoomIndex d + 1\<rparr>)
        else Some (None, d))"
  by (simp add: gui_advance_current gui_getCurrentRoom_current nogui_advance_current
      nogui_getCurrentRoom_def)

text \<open>Both variants called in the last room, "Gold", and in their first room.\<close>

theorem advanceToNextRoom_from_current_room_witness:
  "gui_getCurrentRoom (dungeon gui_gold) = Some 4 \<and>
   gui_advanceToNextRoom (dungeon gui_gold) =
     (None, (dungeon gui_gold)\<lparr>roomStack := [4, 3, 2, 1, 0], currentRoomIndex := 5\<rparr>) \<and>
   gui_advanceToNextRoom gui_first_advance =
     (Some 2, gui_first_advance\<lparr>roomStack := [1, 0], currentRoomIndex := 2\<rparr>) \<and>
   nogui_getCurrentRoom nogui_last_room = Some 4 \<and>
   nogui_advanceToNextRoom nogui_last_room = Some (None, nogui_last_room) \<and>
   nogui_advanceToNextRoom nogui_first_room =
     Some (Some 1, nogui_first_room\<lparr>roomStack := [1, 0], currentRoomIndex := 1\<rparr>)"
  using advanceToNextRoom_from_current_room [of "dungeon gui_gold"]
    advanceToNextRoom_from_current_room [of gui_first_advance]
    advanceToNextRoom_from_current_room [of nogui_last_room]
    advanceToNextRoom_from_current_room [of nogui_first_room]
  by (simp add: gui_gold_def gui_first_advance_def nogui_last_room_def nogui_first_room_def
      length_catalog)

text \<open>
  The console call that exhausts the catalog: a current room exists, the call returns
  null, the stack still has its five entries and the index is still 4.
\<close>

theorem nogui_advance_exhausted_counterexample:
  "nogui_getCurrentRoom nogui_last_room = Some 4 \<and>
   map_option fst (nogui_advanceToNextRoom nogui_last_room) = Some None \<and>
   length (roomStack nogui_last_room) = 5 \<and>
   map_option (length \<circ> roomStack \<circ> snd) (nogui_advanceToNextRoom nogui_last_room) =
     Some 5 \<and>
   currentRoomIndex nogui_last_room = 4 \<and>
   map_option (currentRoomIndex \<circ> snd) (nogui_advanceToNextRoom nogui_last_room) = Some 4"
  by (simp add: nogui_getCurrentRoom_def nogui_advanceToNextRoom_def nogui_last_room_def
      length_catalog)

subsection \<open>The first advance of the SFML variant\<close>

lemma gui_advance_rooms: "rooms (snd (gui_advanceToNextRoom d)) = rooms d"
  by (auto simp add: gui_advanceToNextRoom_def Let_def split: sum.splits)

lemma gui_advance_index_nonneg:
  "0 \<le> currentRoomIndex d \<Longrightarrow> 0 \<le> currentRoomIndex (snd (gui_advanceToNextRoom d))"
  by (auto simp add: gui_advanceToNextRoom_def Let_def split: sum.splits)

lemma gui_backtrack_rooms: "rooms (snd (gui_backtrack d)) = rooms d"
  by (simp add: gui_backtrack_def Let_def split: list.splits option.splits)

lemma gui_backtrack_index_nonneg:
  "0 \<le> currentRoomIndex d \<Longrightarrow> 0 \<le> currentRoomIndex (snd (gui_backtrack d))"
  by (simp add: gui_backtrack_def Let_def split: list.splits option.splits)

lemma gui_navigate_inv:
  "0 \<le> currentRoomIndex d \<Longrightarrow>
     rooms (gui_navigate d ops) = rooms d \<and> 0 \<le> currentRoomIndex (gui_navigate d ops)"
proof (induction d ops rule: gui_navigate.induct)
  case (1 d)
  then show ?case by simp
next
  case (2 d ops)
  then show ?case by (simp add: gui_advance_rooms gui_advance_index_nonneg)
next
  case (3 d ops)
  then show ?case by (simp add: gui_backtrack_rooms gui_backtrack_index_nonneg)
qed

lemma gui_advance_never_first:
  assumes "0 \<le> currentRoomIndex d"
  shows "fst (gui_advanceToNextRoom d) \<noteq> Some 0"
  using assms
  by (auto simp add: gui_advanceToNextRoom_def Let_def getAsset_def to_size_t_def
      split: sum.splits if_splits)

lemma gui_advance_in_range:
  "fst (gui_advanceToNextRoom d) = Some i \<Longrightarrow> i < length (rooms d)"
  by (auto simp add: gui_advanceToNextRoom_def Let_def getAsset_def
      split: sum.splits if_splits)

lemma catalog_name_Base: "i < 5 \<Longrightarrow> room_name (catalog ! i) = ''Base'' \<Longrightarrow> i = 0"
proof -
  assume "i < 5" and b: "room_name (catalog ! i) = ''Base''"
  then consider "i = 0" | "i = 1" | "i = 2" | "i = 3" | "i = 4" by linarith
  then show "i = 0" using b by cases (simp_all add: catalog_def)
qed

text \<open>
  Claim C10. The first \<^verbatim>\<open>advanceToNextRoom()\<close> on a new SFML dungeon pushes "Base" and
  returns "Bronze"; after any sequence of advance and backtrack calls on a new dungeon,
  the room an advance returns is never the first catalog room and is never named "Base";
  a backtrack right after the first advance fails, the stack holding one entry; and the
  game loop, which makes that first advance when it starts playing, starts in "Bronze".
\<close>

theorem gui_first_advance_skips_Base:
  "gui_advanceToNextRoom gui_Dungeon = (Some 1, gui_first_advance) \<and>
   roomStack gui_first_advance = [0] \<and>
   map_option room_name (deref gui_Dungeon (Some 0)) = Some ''Base'' \<and>
   map_option room_name (deref gui_first_advance (Some 1)) = Some ''Bronze'' \<and>
   fst (gui_advanceToNextRoom (gui_navigate gui_Dungeon ops)) \<noteq> Some 0 \<and>
   map_option room_name
     (deref (gui_navigate gui_Dungeon ops)
        (fst (gui_advanceToNextRoom (gui_navigate gui_Dungeon ops)))) \<noteq> Some ''Base'' \<and>
   gui_backtrack gui_first_advance = (None, gui_first_advance) \<and>
   currentRoom (gui_enter (gui_start n)) = Some 1"
proof -
  let ?d = "gui_navigate gui_Dungeon ops"
  have inv: "rooms ?d = catalog \<and> 0 \<le> currentRoomIndex ?d"
    using gui_navigate_inv [of gui_Dungeon ops] by (simp add: gui_Dungeon_def)
  have first: "gui_advanceToNextRoom gui_Dungeon = (Some 1, gui_first_advance)"
    by (simp add: gui_advance_current gui_Dungeon_def gui_first_advance_def length_catalog)
  have never: "fst (gui_advanceToNextRoom ?d) \<noteq> Some 0"
    using inv by (simp add: gui_advance_never_first)
  have name: "map_option room_name (deref ?d (fst (gui_advanceToNextRoom ?d))) \<noteq> Some ''Base''"
  proof (cases "fst (gui_advanceToNextRoom ?d)")
    case None
    then show ?thesis by (simp add: deref_def)
  next
    case (Some i)
    then have "i < 5" "i \<noteq> 0"
      using gui_advance_in_range [of ?d i] inv never by (simp_all add: length_catalog)
    then show ?thesis
      using Some inv catalog_name_Base [of i] by (auto simp add: deref_def length_catalog)
  qed
  have bt: "gui_backtrack gui_first_advance = (None, gui_first_advance)"
    by (simp add: gui_backtrack_def gui_first_advance_def)
  have enter: "currentRoom (gui_enter (gui_start n)) = Some 1"
    using first by (simp add: gui_enter_def gui_start_def)
  show ?thesis
    using first never name bt enter
    by (simp add: deref_def gui_Dungeon_def gui_first_advance_def catalog_def)
qed

section \<open>The player\<close>

subsection \<open>Sorting\<close>

lemma list_insert_key:
  fixes f :: "'a \<Rightarrow> 'b::linorder"
  shows "list_insert (\<lambda>a b. f a < f b) x xs = insort_key f x xs"
  by (induction xs) auto

lemma list_sort_key:
  fixes f :: "'a \<Rightarrow> 'b::linorder"
  shows "list_sort (\<lambda>a b. f a < f b) xs = sort_key f xs"
  by (induction xs) (simp_all add: list_sort_def list_insert_key)

lemma gui_sortInventory_sort_key:
  "inventory (gui_sortInventory p) = sort_key (map tolower) (inventory p)"
proof -
  have "lower_less = (\<lambda>a b. map tolower a < map tolower b)"
    by (intro ext) (simp add: lower_less_def)
  then have "list_sort lower_less (inventory p) = sort_key (map tolower) (inventory p)"
    using list_sort_key [of "map tolower" "inventory p"] by simp
  then show ?thesis
    by (simp add: gui_sortInventory_def)
qed

lemma nogui_sortInventory_sort:
  "inventory (nogui_sortInventory p) = sort (inventory p)"
  using list_sort_key [of "\<lambda>x. x" "inventory p"]
  by (simp add: nogui_sortInventory_def)

lemma tolower_A: "map tolower ''A'' = map tolower ''a''"
  by code_simp

lemma gui_sort_example:
  "list_sort lower_less [''armour'', ''5 Coins'', ''Key''] = [''5 Coins'', ''armour'', ''Key'']"
  by code_simp

lemma nogui_sort_example:
  "list_sort (<) [''armour'', ''5 Coins'', ''Key''] = [''5 Coins'', ''Key'', ''armour'']"
  by code_simp

lemma fold_unsorted_example:
  "\<not> sorted (map (map tolower) [''5 Coins'', ''Key'', ''armour''])"
  by code_simp

text \<open>
  Claim C6, as the code has it. The SFML \<^verbatim>\<open>sortInventory()\<close> puts the inventory in
  ascending order of the lower-cased item strings, keeps the same items, keeps the order
  of items whose lower-cased strings are equal, gives "A" and "a" the same sort key, and
  turns ["armour", "5 Coins", "Key"] into ["5 Coins", "armour", "Key"]. The console
  \<^verbatim>\<open>sortInventory()\<close> sorts by the plain character codes, upper case before lower case,
  and turns the same inventory into ["5 Coins", "Key", "armour"].
\<close>

theorem sortInventory_order:
  "sorted (map (map tolower) (inventory (gui_sortInventory p))) \<and>
   mset (inventory (gui_sortInventory p)) = mset (inventory p) \<and>
   filter (\<lambda>item. map tolower item = k) (inventory (gui_sortInventory p)) =
     filter (\<lambda>item. map tolower item = k) (inventory p) \<and>
   map tolower ''A'' = map tolower ''a'' \<and>
   inventory (gui_sortInventory (p\<lparr>inventory := [''armour'', ''5 Coins'', ''Key'']\<rparr>)) =
     [''5 Coins'', ''armour'', ''Key''] \<and>
   sorted (inventory (nogui_sortInventory p)) \<and>
   mset (inventory (nogui_sortInventory p)) = mset (inventory p) \<and>
   inventory (nogui_sortInventory (p\<lparr>inventory := [''armour'', ''5 Coins'', ''Key'']\<rparr>)) =
     [''5 Coins'', ''Key'', ''armour'']"
proof -
  have g1: "sorted (map (map tolower) (inventory (gui_sortInventory p)))"
    by (simp add: gui_sortInventory_sort_key sorted_sort_key)
  have g2: "mset (inventory (gui_sortInventory p)) = mset (inventory p)"
    by (simp add: gui_sortInventory_sort_key)
  have g3: "filter (\<lambda>item. map tolower item = k) (inventory (gui_sortInventory p)) =
     filter (\<lambda>item. map tolower item = k) (inventory p)"
    by (simp add: gui_sortInventory_sort_key sort_key_stable)
  have g4: "inventory (gui_sortInventory (p\<lparr>inventory := [''armour'', ''5 Coins'', ''Key'']\<rparr>)) =
     [''5 Coins'', ''armour'', ''Key'']"
    by (simp add: gui_sortInventory_def gui_sort_example)
  have n1: "sorted (inventory (nogui_sortInventory p))"
    by (simp add: nogui_sortInventory_sort)
  have n2: "mset (inventory (nogui_sortInventory p)) = mset (inventory p)"
    by (simp add: nogui_sortInventory_sort)
  have n3: "inventory (nogui_sortInventory (p\<lparr>inventory := [''armour'', ''5 Coins'', ''Key'']\<rparr>)) =
     [''5 Coins'', ''Key'', ''armour'']"
    by (simp add: nogui_sortInventory_def nogui_sort_example)
  from g1 g2 g3 tolower_A g4 n1 n2 n3 show ?thesis by blast
qed

text \<open>
  The console sort on the inventory of the claim: the result is not in ascending order of
  the lower-cased strings.
\<close>

theorem nogui_sortInventory_counterexample:
  "inventory (nogui_sortInventory
      ((new_Player ''p'')\<lparr>inventory := [''armour'', ''5 Coins'', ''Key'']\<rparr>)) =
     [''5 Coins'', ''Key'', ''armour''] \<and>
   \<not> sorted (map (map tolower) [''5 Coins'', ''Key'', ''armour''])"
proof -
  have "inventory (nogui_sortInventory
      ((new_Player ''p'')\<lparr>inventory := [''armour'', ''5 Coins'', ''Key'']\<rparr>)) =
     [''5 Coins'', ''Key'', ''armour'']"
    by (simp add: nogui_sortInventory_def nogui_sort_example)
  then show ?thesis
    by (rule conjI [OF _ fold_unsorted_example])
qed

subsection \<open>Moves\<close>

lemma gui_player_op_moves: "0 \<le> moves p \<Longrightarrow> 0 \<le> moves (gui_player_op op p)"
  by (cases op)
     (simp_all add: heal_def takeDamage_def addToInventory_def addCoins_def gui_useMove_def
        incrementEnemiesDefeated_def gui_sortInventory_def Let_def)

lemma gui_player_ops_moves: "0 \<le> moves p \<Longrightarrow> 0 \<le> moves (fold gui_player_op ops p)"
  by (induction ops arbitrary: p) (simp_all add: gui_player_op_moves)

section \<open>Resolving a fight\<close>

lemma won_fight_steps:
  "health (enemy room) \<le> health p \<Longrightarrow>
     incrementEnemiesDefeated (addCoins 10
       (addToInventory (item2 (treasure room))
         (addToInventory (item1 (treasure room))
           (takeDamage (getHealth (enemy room)) p)))) = won_fight p room"
  by (simp add: won_fight_def incrementEnemiesDefeated_def addCoins_def addToInventory_def
      takeDamage_def getHealth_def Let_def)

lemma nogui_fight_won:
  "health (enemy room) \<le> health p \<Longrightarrow>
     nogui_fight p room d =
       (case nogui_advanceToNextRoom d of
          None \<Rightarrow> Fault
        | Some (None, d1) \<Rightarrow> Over Escaped (nogui_sortInventory (won_fight p room)) d1
        | Some (Some nextRoom, d1) \<Rightarrow> Next (won_fight p room) d1)"
  using won_fight_steps [of room p]
  by (simp add: nogui_fight_def Let_def getHealth_def split: option.split)

lemma nogui_fight_lost:
  "health p < health (enemy room) \<Longrightarrow>
     nogui_fight p room d =
       Next (p\<lparr>health := (if health p < 10 then 0 else health p - 10)\<rparr>) d"
  by (simp add: nogui_fight_def Let_def getHealth_def takeDamage_def)

lemma gui_fight_won:
  "deref (dungeon s) (currentRoom s) = Some room \<Longrightarrow>
   health (enemy room) \<le> health (player s) \<Longrightarrow>
     gui_fight s =
       Some (s\<lparr>player := won_fight (player s) room,
               dungeon := snd (gui_advanceToNextRoom (dungeon s)),
               currentRoom := fst (gui_advanceToNextRoom (dungeon s))\<rparr>)"
  using won_fight_steps [of room "player s"]
  by (simp add: gui_fight_def Let_def getHealth_def split_beta)

lemma gui_fight_lost:
  "deref (dungeon s) (currentRoom s) = Some room \<Longrightarrow>
   health (player s) < health (enemy room) \<Longrightarrow>
     gui_fight s =
       Some (s\<lparr>player := (player s)
                 \<lparr>health := (if health (player s) < 10 then 0 else health (player s) - 10)\<rparr>\<rparr>)"
  by (simp add: gui_fight_def Let_def getHealth_def takeDamage_def)

section \<open>One turn of the console loop\<close>

declare gameLoop.simps [simp del]

lemma gameLoop_critical:
  "health p < 20 \<Longrightarrow> gameLoop p d input = GameOver CriticalHealth p d"
  by (subst gameLoop.simps) (simp add: getHealth_def)

lemma gameLoop_out_of_moves:
  "20 \<le> health p \<Longrightarrow> moves p \<le> 0 \<Longrightarrow> gameLoop p d input = GameOver OutOfMoves p d"
  by (subst gameLoop.simps) (simp add: getHealth_def getMoves_def)

lemma gameLoop_turn:
  assumes "20 \<le> health p" "0 < moves p"
    and "nogui_getCurrentRoom d = Some r" "deref d (Some r) = Some room"
  shows "gameLoop p d (Some choice # rest) =
     (case nogui_switch choice (nogui_useMove p) room d of
        Next p1 d1 \<Rightarrow> gameLoop p1 d1 rest
      | Over e p1 d1 \<Rightarrow> GameOver e p1 d1
      | Fault \<Rightarrow> Crashed)"
  using assms by (subst gameLoop.simps) (simp add: getHealth_def getMoves_def)

lemma nogui_switch_over:
  "nogui_switch choice q room d = Over e p1 d1 \<Longrightarrow> choice \<noteq> 4 \<Longrightarrow> e = Escaped"
  by (auto simp add: nogui_switch_def nogui_fight_def nogui_bypass_def Let_def
      split: if_splits option.splits prod.splits)

lemma nogui_switch_escapes:
  "choice \<noteq> 4 \<Longrightarrow>
   (case nogui_switch choice q room d of Over e p1 d1 \<Rightarrow> True | _ \<Rightarrow> False) =
     ((choice = 2 \<or> choice = 1 \<and> health (enemy room) \<le> health q) \<and>
      map_option fst (nogui_advanceToNextRoom d) = Some None)"
  by (auto simp add: nogui_switch_def nogui_fight_def nogui_bypass_def Let_def getHealth_def
      split: if_splits option.splits prod.splits)

lemma nogui_turn_priority:
  assumes "20 \<le> health p" "0 < moves p"
    and "nogui_getCurrentRoom d = Some r" "deref d (Some r) = Some room"
    and "choice \<noteq> 4"
  shows "gameLoop p d (Some choice # rest) =
     (case nogui_switch choice (nogui_useMove p) room d of
        Next p1 d1 \<Rightarrow>
          if health p1 < 20 then GameOver CriticalHealth p1 d1
          else if moves p1 \<le> 0 then GameOver OutOfMoves p1 d1
          else gameLoop p1 d1 rest
      | Over e p1 d1 \<Rightarrow> GameOver Escaped p1 d1
      | Fault \<Rightarrow> Crashed)"
proof (cases "nogui_switch choice (nogui_useMove p) room d")
  case (Next p1 d1)
  then show ?thesis
    using assms gameLoop_critical [of p1 d1 rest] gameLoop_out_of_moves [of p1 d1 rest]
    by (simp add: gameLoop_turn)
next
  case (Over e p1 d1)
  then show ?thesis
    using assms nogui_switch_over [OF Over] by (simp add: gameLoop_turn)
next
  case Fault
  then show ?thesis using assms by (simp add: gameLoop_turn)
qed

section \<open>One frame of the SFML loop\<close>

lemma gui_enter_in_room: "currentRoom s \<noteq> None \<Longrightarrow> gui_enter s = s"
  by (auto simp add: gui_enter_def)

lemma gui_switch_room:
  assumes "deref (dungeon s) (currentRoom s) = Some room" "choice \<noteq> 4"
    and "gui_switch choice s = Some s2"
  shows "gameState s2 = gameState s \<and> gameOverMessage s2 = gameOverMessage s \<and>
    (currentRoom s2 = None) =
      ((choice = 2 \<or> choice = 1 \<and> health (enemy room) \<le> health (player s)) \<and>
       fst (gui_advanceToNextRoom (dungeon s)) = None)"
  using assms
  by (auto simp add: gui_switch_def gui_fight_def gui_bypass_def gui_backtrack_case_def
      Let_def getHealth_def deref_def split_beta split: if_splits option.splits)

lemma gui_frame_turn:
  assumes "gameState s = PLAYING" "currentRoom s \<noteq> None" "0 < choice"
  shows "gui_frame s choice =
     (case gui_switch choice (s\<lparr>player := gui_useMove (player s)\<rparr>) of
        None \<Rightarrow> None
      | Some s2 \<Rightarrow>
          Some (if gameState (gui_check s2) = GAME_OVER
                then (gui_check s2)\<lparr>player := gui_sortInventory (player (gui_check s2))\<rparr>
                else gui_check s2))"
  using assms by (simp add: gui_frame_def gui_enter_in_room Let_def split: option.splits)

lemma gui_useMove_health: "health (gui_useMove p) = health p"
  by (simp add: gui_useMove_def)

lemma gui_sortInventory_fields:
  "health (gui_sortInventory p) = health p \<and> moves (gui_sortInventory p) = moves p \<and>
   coins (gui_sortInventory p) = coins p \<and>
   enemiesDefeated (gui_sortInventory p) = enemiesDefeated p \<and>
   name (gui_sortInventory p) = name p"
  by (simp add: gui_sortInventory_def)

lemma gui_turn_priority:
  assumes "gameState s = PLAYING" "deref (dungeon s) (currentRoom s) = Some room"
    and "0 < choice" "choice \<noteq> 4" "gui_frame s choice = Some s1"
  shows "(gameState s1, gameOverMessage s1) =
       (if currentRoom s1 = None then (GAME_OVER, Some Escaped)
        else if health (player s1) < 20 then (GAME_OVER, Some CriticalHealth)
        else if moves (player s1) \<le> 0 then (GAME_OVER, Some OutOfMoves)
        else (PLAYING, gameOverMessage s)) \<and>
     (currentRoom s1 = None) =
       ((choice = 2 \<or> choice = 1 \<and> health (enemy room) \<le> health (player s)) \<and>
        fst (gui_advanceToNextRoom (dungeon s)) = None)"
proof -
  let ?s0 = "s\<lparr>player := gui_useMove (player s)\<rparr>"
  have room: "currentRoom s \<noteq> None"
    using assms(2) by (auto simp add: deref_def split: option.splits)
  obtain s2 where s2: "gui_switch choice ?s0 = Some s2"
    using assms(1,3,5) room by (cases "gui_switch choice ?s0") (simp_all add: gui_frame_turn)
  have s1: "s1 = (if gameState (gui_check s2) = GAME_OVER
                then (gui_check s2)\<lparr>player := gui_sortInventory (player (gui_check s2))\<rparr>
                else gui_check s2)"
    using assms(1,3,5) room s2 by (simp add: gui_frame_turn)
  have sw: "gameState s2 = PLAYING \<and> gameOverMessage s2 = gameOverMessage s \<and>
    (currentRoom s2 = None) =
      ((choice = 2 \<or> choice = 1 \<and> health (enemy room) \<le> health (player s)) \<and>
       fst (gui_advanceToNextRoom (dungeon s)) = None)"
    using gui_switch_room [of ?s0 room choice s2] assms(1,2,4) s2
    by (simp add: gui_useMove_health)
  have chk: "currentRoom (gui_check s2) = currentRoom s2 \<and>
      player (gui_check s2) = player s2 \<and>
      (gameState (gui_check s2), gameOverMessage (gui_check s2)) =
        (if currentRoom s2 = None then (GAME_OVER, Some Escaped)
         else if health (player s2) < 20 then (GAME_OVER, Some CriticalHealth)
         else if moves (player s2) \<le> 0 then (GAME_OVER, Some OutOfMoves)
         else (PLAYING, gameOverMessage s))"
    using sw by (simp add: gui_check_def getHealth_def getMoves_def)
  have fin: "currentRoom s1 = currentRoom s2 \<and>
      health (player s1) = health (player s2) \<and> moves (player s1) = moves (player s2) \<and>
      gameState s1 = gameState (gui_check s2) \<and>
      gameOverMessage s1 = gameOverMessage (gui_check s2)"
    using s1 chk by (simp add: gui_sortInventory_fields)
  have "(gameState s1, gameOverMessage s1) =
       (if currentRoom s1 = None then (GAME_OVER, Some Escaped)
        else if health (player s1) < 20 then (GAME_OVER, Some CriticalHealth)
        else if moves (player s1) \<le> 0 then (GAME_OVER, Some OutOfMoves)
        else (PLAYING, gameOverMessage s))"
    using chk fin by (simp only:)
  moreover have "(currentRoom s1 = None) =
       ((choice = 2 \<or> choice = 1 \<and> health (enemy room) \<le> health (player s)) \<and>
        fst (gui_advanceToNextRoom (dungeon s)) = None)"
    using sw fin by (simp only:)
  ultimately show ?thesis by (rule conjI)
qed


lemma gui_quit_frame:
  assumes "gameState s = PLAYING" "currentRoom s \<noteq> None" "gui_frame s 4 = Some s2"
  shows "(gameState s2, gameOverMessage s2) = (GAME_OVER, Some QuitGame)"
  using assms
  by (auto simp add: gui_frame_turn gui_switch_def gui_quit_def gui_check_def)

lemma nogui_quit_turn:
  assumes "20 \<le> health p" "0 < moves p"
    and "nogui_getCurrentRoom d = Some r" "deref d (Some r) = Some room"
  shows "gameLoop p d (Some 4 # rest) = GameOver QuitGame (nogui_useMove p) d"
  using assms by (simp add: gameLoop_turn nogui_switch_def)

section \<open>The states of the examples are states of play\<close>

lemma nogui_reach_first_room:
  "gameLoop (new_Player ''p'') nogui_Dungeon [] =
     AwaitingInput (new_Player ''p'') nogui_first_room"
  by code_simp

lemma nogui_reach_gold:
  "gameLoop (new_Player ''p'') nogui_Dungeon
     [Some 9, Some 9, Some 9, Some 9, Some 9, Some 2, Some 2, Some 2, Some 2] =
   AwaitingInput nogui_gold_player nogui_last_room"
  by code_simp

lemma gui_reach_entered: "gameLoopWithGUI (gui_start ''p'') [- 1] = Some gui_entered"
  by code_simp

lemma gui_reach_gold:
  "gameLoopWithGUI (gui_start ''p'') [9, 9, 9, 9, 9, 9, 2, 2, 2] = Some gui_gold"
  by code_simp

section \<open>The order of the checks\<close>

text \<open>
  Claim C4. After a resolved Fight, Bypass, Backtrack or lost turn the outcome follows one
  order in both variants; Quit, the fourth choice, ends the game as quit by its own rule. SFML: a frame that resolves a choice in an existing room ends the game as
  escaped when the current room has become null, else as lost for critical health when
  the health is below 20, else as lost for want of moves when no move is left, and goes
  on playing otherwise; the room is null exactly when the action advanced (a bypass or a
  won fight) and \<^verbatim>\<open>advanceToNextRoom()\<close> returned null. Console: a turn whose case ends
  in the escape is an escape whatever the health and the moves are, and that happens
  exactly when the action advanced and the advance returned null; otherwise the next
  call of \<^verbatim>\<open>gameLoop\<close> reports critical health first, then the lack of moves, and
  otherwise plays the next turn.
\<close>

theorem turn_outcome_priority:
  "(gameState s = PLAYING \<and> deref (dungeon s) (currentRoom s) = Some room \<and>
    0 < choice \<and> choice \<noteq> 4 \<and> gui_frame s choice = Some s1 \<longrightarrow>
      (gameState s1, gameOverMessage s1) =
        (if currentRoom s1 = None then (GAME_OVER, Some Escaped)
         else if health (player s1) < 20 then (GAME_OVER, Some CriticalHealth)
         else if moves (player s1) \<le> 0 then (GAME_OVER, Some OutOfMoves)
         else (PLAYING, gameOverMessage s)) \<and>
      (currentRoom s1 = None) =
        ((choice = 2 \<or> choice = 1 \<and> health (enemy room) \<le> health (player s)) \<and>
         fst (gui_advanceToNextRoom (dungeon s)) = None)) \<and>
   (20 \<le> health p \<and> 0 < moves p \<and> nogui_getCurrentRoom d = Some r \<and>
    deref d (Some r) = Some croom \<and> c \<noteq> 4 \<longrightarrow>
      gameLoop p d (Some c # rest) =
        (case nogui_switch c (nogui_useMove p) croom d of
           Next p1 d1 \<Rightarrow>
             if health p1 < 20 then GameOver CriticalHealth p1 d1
             else if moves p1 \<le> 0 then GameOver OutOfMoves p1 d1
             else gameLoop p1 d1 rest
         | Over e p1 d1 \<Rightarrow> GameOver Escaped p1 d1
         | Fault \<Rightarrow> Crashed) \<and>
      (case nogui_switch c (nogui_useMove p) croom d of
         Over e p1 d1 \<Rightarrow> True | _ \<Rightarrow> False) =
        ((c = 2 \<or> c = 1 \<and> health (enemy croom) \<le> health p) \<and>
         map_option fst (nogui_advanceToNextRoom d) = Some None)) \<and>
   (gameState s = PLAYING \<and> currentRoom s \<noteq> None \<and> gui_frame s 4 = Some s2 \<longrightarrow>
      (gameState s2, gameOverMessage s2) = (GAME_OVER, Some QuitGame)) \<and>
   (20 \<le> health p \<and> 0 < moves p \<and> nogui_getCurrentRoom d = Some r \<and>
    deref d (Some r) = Some croom \<longrightarrow>
      gameLoop p d (Some 4 # rest) = GameOver QuitGame (nogui_useMove p) d)"
proof -
  have useMove: "health (nogui_useMove p) = health p"
    by (simp add: nogui_useMove_def)
  show ?thesis
    using gui_turn_priority [of s room choice s1]
      nogui_turn_priority [of p d r croom c rest]
      nogui_switch_escapes [of c "nogui_useMove p" croom d]
      gui_quit_frame [of s s2] nogui_quit_turn [of p d r croom rest]
    by (simp only: useMove) blast
qed

lemma gui_gold_fight: "gui_frame gui_gold 1 = Some gui_escaped"
  by code_simp

lemma nogui_gold_fight:
  "gameLoop nogui_gold_player nogui_last_room [Some 1] =
     GameOver Escaped nogui_escaped_player nogui_last_room"
  by code_simp

text \<open>
  In the last room with one move left, a won fight against the boss leaves health below
  20 and no move, and the game is won in both variants.
\<close>

theorem turn_outcome_priority_witness:
  "gameState gui_gold = PLAYING \<and> gui_frame gui_gold 1 = Some gui_escaped \<and>
   (gameState gui_escaped, gameOverMessage gui_escaped) = (GAME_OVER, Some Escaped) \<and>
   health (player gui_escaped) = 15 \<and> moves (player gui_escaped) = 0 \<and>
   nogui_getCurrentRoom nogui_last_room = Some 4 \<and>
   gameLoop nogui_gold_player nogui_last_room [Some 1] =
     GameOver Escaped nogui_escaped_player nogui_last_room \<and>
   health nogui_escaped_player = 10 \<and> moves nogui_escaped_player = 0"
proof -
  have "deref (dungeon gui_gold) (currentRoom gui_gold) = Some (catalog ! 4)"
    and "gameState gui_gold = PLAYING"
    and "deref nogui_last_room (Some 4) = Some (catalog ! 4)"
    and "nogui_getCurrentRoom nogui_last_room = Some 4"
    and "20 \<le> health nogui_gold_player" and "0 < moves nogui_gold_player"
    by (simp_all add: gui_gold_def nogui_last_room_def nogui_gold_player_def deref_def
        nogui_getCurrentRoom_def length_catalog)
  then show ?thesis
    using turn_outcome_priority [where s = gui_gold and room = "catalog ! 4" and choice = 1
        and ?s1.0 = gui_escaped and p = nogui_gold_player and d = nogui_last_room and r = 4
        and croom = "catalog ! 4" and c = 1 and rest = "[]"]
      gui_gold_fight nogui_gold_fight
    by (simp add: gui_escaped_def nogui_escaped_player_def)
qed

section \<open>What the console reports at the end\<close>

lemma nogui_quit_run:
  "gameLoop (new_Player n) nogui_Dungeon [Some 1, Some 1, Some 4] =
     GameOver QuitGame
       \<lparr>name = n, health = 60,
        inventory = [''5 Coins'', ''Armour'', ''5 Coins'', ''Health Booster Potion''],
        moves = 7, coins = 20, enemiesDefeated = 2\<rparr>
       (nogui_Dungeon\<lparr>roomStack := [2, 1, 0], currentRoomIndex := 2\<rparr>)"
  by code_simp

lemma nogui_critical_run:
  "gameLoop (new_Player n) nogui_Dungeon [Some 1, Some 1, Some 1, Some 1] =
     GameOver CriticalHealth
       \<lparr>name = n, health = 15,
        inventory = [''5 Coins'', ''Armour'', ''5 Coins'', ''Health Booster Potion'',
                     ''Health Booster Potion'', ''Armour''],
        moves = 6, coins = 30, enemiesDefeated = 3\<rparr>
       (nogui_Dungeon\<lparr>roomStack := [3, 2, 1, 0], currentRoomIndex := 3\<rparr>)"
  by code_simp

lemma nogui_out_of_moves_run:
  "gameLoop (new_Player n) nogui_Dungeon
     [Some 1, Some 1, Some 3, Some 3, Some 3, Some 3, Some 3, Some 3, Some 3, Some 3] =
     GameOver OutOfMoves
       \<lparr>name = n, health = 60,
        inventory = [''5 Coins'', ''Armour'', ''5 Coins'', ''Health Booster Potion''],
        moves = 0, coins = 20, enemiesDefeated = 2\<rparr>
       (nogui_Dungeon\<lparr>roomStack := [0], currentRoomIndex := 0\<rparr>)"
  by code_simp

lemma unsorted_loot:
  "\<not> sorted [''5 Coins'', ''Armour'', ''5 Coins'', ''Health Booster Potion''] \<and>
   \<not> sorted [''5 Coins'', ''Armour'', ''5 Coins'', ''Health Booster Potion'',
              ''Health Booster Potion'', ''Armour'']"
  by code_simp

text \<open>
  Claim C5 at its failing inputs. The console game reports the inventory unsorted when it
  ends with Quit (inputs 1, 1, 4), with critical health (inputs 1, 1, 1, 1) or out of moves
  (inputs 1, 1 and eight times 3): \<^verbatim>\<open>displayRanking\<close> gets the items in the order in
  which they were collected. Only the two escape branches call \<^verbatim>\<open>sortInventory()\<close>.
\<close>

theorem nogui_reports_unsorted_inventory:
  "result_ending (gameLoop (new_Player n) nogui_Dungeon [Some 1, Some 1, Some 4]) =
     Some QuitGame \<and>
   map_option inventory
     (result_player (gameLoop (new_Player n) nogui_Dungeon [Some 1, Some 1, Some 4])) =
     Some [''5 Coins'', ''Armour'', ''5 Coins'', ''Health Booster Potion''] \<and>
   result_ending (gameLoop (new_Player n) nogui_Dungeon [Some 1, Some 1, Some 1, Some 1]) =
     Some CriticalHealth \<and>
   map_option inventory
     (result_player
        (gameLoop (new_Player n) nogui_Dungeon [Some 1, Some 1, Some 1, Some 1])) =
     Some [''5 Coins'', ''Armour'', ''5 Coins'', ''Health Booster Potion'',
           ''Health Booster Potion'', ''Armour''] \<and>
   result_ending
     (gameLoop (new_Player n) nogui_Dungeon
        [Some 1, Some 1, Some 3, Some 3, Some 3, Some 3, Some 3, Some 3, Some 3, Some 3]) =
     Some OutOfMoves \<and>
   map_option inventory
     (result_player
        (gameLoop (new_Player n) nogui_Dungeon
           [Some 1, Some 1, Some 3, Some 3, Some 3, Some 3, Some 3, Some 3, Some 3,
            Some 3])) =
     Some [''5 Coins'', ''Armour'', ''5 Coins'', ''Health Booster Potion''] \<and>
   \<not> sorted [''5 Coins'', ''Armour'', ''5 Coins'', ''Health Booster Potion''] \<and>
   \<not> sorted [''5 Coins'', ''Armour'', ''5 Coins'', ''Health Booster Potion'',
              ''Health Booster Potion'', ''Armour'']"
  using unsorted_loot
  by (simp only: nogui_quit_run nogui_critical_run nogui_out_of_moves_run
      result_ending.simps result_player.simps option.map Player.simps) simp

text \<open>The SFML loop sorts on every ending.\<close>

lemma gui_game_over_sorted:
  assumes "gui_frame s choice = Some s1" "gameState s1 = GAME_OVER"
  shows "sorted (map (map tolower) (inventory (player s1)))"
proof -
  obtain s3 where s1: "s1 = (if gameState s3 = GAME_OVER
      then s3\<lparr>player := gui_sortInventory (player s3)\<rparr> else s3)"
    using assms(1) by (auto simp add: gui_frame_def split: option.splits)
  then have "s1 = s3\<lparr>player := gui_sortInventory (player s3)\<rparr>"
    using assms(2) by (cases "gameState s3 = GAME_OVER") simp_all
  then show ?thesis
    by (simp add: gui_sortInventory_sort_key sorted_sort_key)
qed

section \<open>Invariants of the two loops\<close>

lemma gameLoop_player_invariant:
  assumes turn: "\<And>p c room d q d1. P p \<Longrightarrow> 20 \<le> health p \<Longrightarrow> 0 < moves p \<Longrightarrow>
      nogui_switch c (nogui_useMove p) room d = Next q d1 \<Longrightarrow> P q"
    and over: "\<And>p c room d e q d1. P p \<Longrightarrow> 20 \<le> health p \<Longrightarrow> 0 < moves p \<Longrightarrow>
      nogui_switch c (nogui_useMove p) room d = Over e q d1 \<Longrightarrow> P q"
  shows "P p \<Longrightarrow> result_player (gameLoop p d input) = Some q \<Longrightarrow> P q"
proof (induction input arbitrary: p d)
  case Nil
  then show ?case
    by (subst (asm) gameLoop.simps)
       (auto simp add: getHealth_def getMoves_def split: if_splits option.splits)
next
  case (Cons a input)
  show ?case
  proof (cases "health p < 20 \<or> moves p \<le> 0")
    case True
    then show ?thesis
      using Cons.prems gameLoop_critical [of p d "a # input"]
        gameLoop_out_of_moves [of p d "a # input"]
      by (cases "health p < 20") auto
  next
    case False
    then have ok: "20 \<le> health p" "0 < moves p" by simp_all
    from Cons.prems(2) ok show ?thesis
      apply (subst (asm) gameLoop.simps)
      apply (simp add: getHealth_def getMoves_def split: option.splits prod.splits step.splits)
        apply (auto dest: Cons.IH [OF Cons.prems(1)] turn [OF Cons.prems(1) ok]
          over [OF Cons.prems(1) ok] intro: Cons.IH)
      done
  qed
qed

subsection \<open>Moves never go below zero\<close>

lemma nogui_switch_moves:
  "nogui_switch c p room d = Next q d1 \<or> nogui_switch c p room d = Over e q d1 \<Longrightarrow>
     moves q = moves p"
  by (auto simp add: nogui_switch_def nogui_fight_def nogui_bypass_def Let_def
      takeDamage_def addToInventory_def addCoins_def incrementEnemiesDefeated_def
      nogui_sortInventory_def
      split: if_splits option.splits prod.splits)

lemma gameLoop_moves:
  assumes "0 \<le> moves p" "result_player (gameLoop p d input) = Some q"
  shows "0 \<le> moves q"
proof (rule gameLoop_player_invariant [where P = "\<lambda>p. 0 \<le> moves p", OF _ _ assms])
  fix p c room d q d1
  assume "0 < moves p" "nogui_switch c (nogui_useMove p) room d = Next q d1"
  then show "0 \<le> moves q"
    using nogui_switch_moves [of c "nogui_useMove p" room d q d1]
    by (simp add: nogui_useMove_def)
next
  fix p c room d e q d1
  assume "0 < moves p" "nogui_switch c (nogui_useMove p) room d = Over e q d1"
  then show "0 \<le> moves q"
    using nogui_switch_moves [of c "nogui_useMove p" room d q d1 e]
    by (simp add: nogui_useMove_def)
qed

subsection \<open>The loot counters\<close>

lemma nogui_sortInventory_fields:
  "health (nogui_sortInventory p) = health p \<and> moves (nogui_sortInventory p) = moves p \<and>
   coins (nogui_sortInventory p) = coins p \<and>
   enemiesDefeated (nogui_sortInventory p) = enemiesDefeated p \<and>
   name (nogui_sortInventory p) = name p \<and>
   mset (inventory (nogui_sortInventory p)) = mset (inventory p)"
  by (simp add: nogui_sortInventory_sort) (simp add: nogui_sortInventory_def)

lemma won_fight_loot:
  "coins (won_fight p room) = coins p + 10 \<and>
   enemiesDefeated (won_fight p room) = enemiesDefeated p + 1 \<and>
   inventory (won_fight p room) = inventory p @ [item1 (treasure room), item2 (treasure room)]"
  by (simp add: won_fight_def)

lemma takeDamage_loot:
  "coins (takeDamage n p) = coins p \<and> enemiesDefeated (takeDamage n p) = enemiesDefeated p \<and>
   inventory (takeDamage n p) = inventory p"
  by (simp add: takeDamage_def Let_def)

lemma nogui_switch_loot:
  assumes "nogui_switch c p room d = Next p1 d1 \<or> nogui_switch c p room d = Over e p1 d1"
  shows "if c = 1 \<and> health (enemy room) \<le> health p
     then coins p1 = coins p + 10 \<and> enemiesDefeated p1 = enemiesDefeated p + 1 \<and>
          mset (inventory p1) =
            mset (inventory p) + {#item1 (treasure room), item2 (treasure room)#}
     else coins p1 = coins p \<and> enemiesDefeated p1 = enemiesDefeated p \<and>
          mset (inventory p1) = mset (inventory p)"
proof (cases "c = 1")
  case True
  show ?thesis
  proof (cases "health (enemy room) \<le> health p")
    case won: True
    then have "p1 = won_fight p room \<or> p1 = nogui_sortInventory (won_fight p room)"
      using assms True
      by (auto simp add: nogui_switch_def nogui_fight_won split: option.splits prod.splits)
    then show ?thesis
      using True won by (auto simp add: won_fight_loot nogui_sortInventory_fields)
  next
    case False
    then have "p1 = p\<lparr>health := (if health p < 10 then 0 else health p - 10)\<rparr>"
      using assms True by (simp add: nogui_switch_def nogui_fight_lost)
    then show ?thesis using True False by simp
  qed
next
  case False
  then have "p1 = p \<or> p1 = takeDamage 5 p \<or> p1 = nogui_sortInventory (takeDamage 5 p)"
    using assms
    by (auto simp add: nogui_switch_def nogui_bypass_def Let_def
        split: if_splits option.splits prod.splits)
  then show ?thesis
    using False by (auto simp add: takeDamage_loot nogui_sortInventory_fields)
qed

lemma gui_switch_loot:
  assumes "deref (dungeon g) (currentRoom g) = Some room" "gui_switch c g = Some g1"
  shows "if c = 1 \<and> health (enemy room) \<le> health (player g)
     then coins (player g1) = coins (player g) + 10 \<and>
          enemiesDefeated (player g1) = enemiesDefeated (player g) + 1 \<and>
          inventory (player g1) =
            inventory (player g) @ [item1 (treasure room), item2 (treasure room)]
     else coins (player g1) = coins (player g) \<and>
          enemiesDefeated (player g1) = enemiesDefeated (player g) \<and>
          inventory (player g1) = inventory (player g)"
proof (cases "c = 1")
  case True
  show ?thesis
  proof (cases "health (enemy room) \<le> health (player g)")
    case won: True
    then have "player g1 = won_fight (player g) room"
      using assms True by (auto simp add: gui_switch_def gui_fight_won)
    then show ?thesis using True won by (simp add: won_fight_loot)
  next
    case False
    then have "player g1 = (player g)
        \<lparr>health := (if health (player g) < 10 then 0 else health (player g) - 10)\<rparr>"
      using assms True by (auto simp add: gui_switch_def gui_fight_lost)
    then show ?thesis using True False by simp
  qed
next
  case False
  then have "player g1 = player g \<or> player g1 = takeDamage 5 (player g)"
    using assms(2)
    by (auto simp add: gui_switch_def gui_bypass_def gui_backtrack_case_def gui_quit_def
        Let_def split_beta split: if_splits option.splits)
  then show ?thesis
    using False by (auto simp add: takeDamage_loot)
qed


lemma loot_invariant_won:
  assumes "loot_invariant p" "coins q = coins p + 10"
    "enemiesDefeated q = enemiesDefeated p + 1"
    "mset (inventory q) = mset (inventory p) + {#a, b#}"
  shows "loot_invariant q"
proof -
  have "size (mset (inventory q)) = size (mset (inventory p) + {#a, b#})"
    using assms(4) by simp
  then have "length (inventory q) = length (inventory p) + 2" by simp
  then show ?thesis using assms(1-3) by (simp add: loot_invariant_def)
qed

lemma loot_invariant_same:
  assumes "loot_invariant p" "coins q = coins p" "enemiesDefeated q = enemiesDefeated p"
    "mset (inventory q) = mset (inventory p)"
  shows "loot_invariant q"
proof -
  have "size (mset (inventory q)) = size (mset (inventory p))"
    using assms(4) by simp
  then have "length (inventory q) = length (inventory p)" by simp
  then show ?thesis using assms(1-3) by (simp add: loot_invariant_def)
qed

lemma nogui_switch_loot_invariant:
  assumes "loot_invariant p"
    and "nogui_switch c (nogui_useMove p) room d = Next q d1 \<or>
         nogui_switch c (nogui_useMove p) room d = Over e q d1"
  shows "loot_invariant q"
proof -
  have p: "loot_invariant (nogui_useMove p)"
    using assms(1) by (simp add: loot_invariant_def nogui_useMove_def)
  show ?thesis
    using nogui_switch_loot [OF assms(2)] loot_invariant_won [OF p] loot_invariant_same [OF p]
    by (auto split: if_splits)
qed

lemma gameLoop_loot:
  assumes "loot_invariant p" "result_player (gameLoop p d input) = Some q"
  shows "loot_invariant q"
proof (rule gameLoop_player_invariant [where P = loot_invariant, OF _ _ assms])
  fix p c room d q d1
  assume "loot_invariant p" "nogui_switch c (nogui_useMove p) room d = Next q d1"
  then show "loot_invariant q"
    using nogui_switch_loot_invariant [of p c room d q d1] by simp
next
  fix p c room d e q d1
  assume "loot_invariant p" "nogui_switch c (nogui_useMove p) room d = Over e q d1"
  then show "loot_invariant q"
    using nogui_switch_loot_invariant [of p c room d q d1 e] by simp
qed

lemma gui_switch_loot_invariant:
  assumes "loot_invariant (player g)" "gui_switch c g = Some g1"
  shows "loot_invariant (player g1)"
proof (cases "deref (dungeon g) (currentRoom g)")
  case None
  then have "c \<noteq> 1"
    using assms(2) by (auto simp add: gui_switch_def gui_fight_def)
  then have "player g1 = player g \<or> player g1 = takeDamage 5 (player g)"
    using assms(2)
    by (auto simp add: gui_switch_def gui_bypass_def gui_backtrack_case_def gui_quit_def
        Let_def split_beta split: if_splits option.splits)
  then show ?thesis
    using assms(1) by (auto simp add: loot_invariant_def takeDamage_loot)
next
  case (Some room)
  show ?thesis
    using gui_switch_loot [OF Some assms(2)] assms(1)
    by (auto simp add: loot_invariant_def split: if_splits)
qed

lemma gui_enter_player: "player (gui_enter s) = player s"
  by (simp add: gui_enter_def Let_def split_beta split: option.splits)

lemma gui_check_player: "player (gui_check s) = player s"
  by (simp add: gui_check_def)

lemma gui_frame_loot_invariant:
  assumes "loot_invariant (player s)" "gui_frame s c = Some s1"
  shows "loot_invariant (player s1)"
proof -
  have sorted: "\<And>p. loot_invariant p \<Longrightarrow> loot_invariant (gui_sortInventory p)"
    by (simp add: loot_invariant_def gui_sortInventory_sort_key gui_sortInventory_fields)
  obtain s3 where s3: "loot_invariant (player s3)"
    and s1: "s1 = (if gameState s3 = GAME_OVER
      then s3\<lparr>player := gui_sortInventory (player s3)\<rparr> else s3)"
  proof (cases "gameState s = PLAYING \<and> 0 < c")
    case True
    let ?s0 = "(gui_enter s)\<lparr>player := gui_useMove (player (gui_enter s))\<rparr>"
    obtain s2 where s2: "gui_switch c ?s0 = Some s2"
      and "s1 = (if gameState (gui_check s2) = GAME_OVER
        then (gui_check s2)\<lparr>player := gui_sortInventory (player (gui_check s2))\<rparr>
        else gui_check s2)"
      using assms(2) True by (auto simp add: gui_frame_def Let_def split: option.splits)
    moreover have "loot_invariant (player ?s0)"
      using assms(1) by (simp add: gui_enter_player loot_invariant_def gui_useMove_def)
    ultimately show ?thesis
      using that [of "gui_check s2"] gui_switch_loot_invariant [of ?s0 c s2]
      by (simp add: gui_check_player)
  next
    case False
    then have "s1 = (if gameState (gui_enter s) = GAME_OVER
        then (gui_enter s)\<lparr>player := gui_sortInventory (player (gui_enter s))\<rparr>
        else gui_enter s) \<or>
      s1 = (if gameState s = GAME_OVER
        then s\<lparr>player := gui_sortInventory (player s)\<rparr> else s)"
      using assms(2) by (auto simp add: gui_frame_def Let_def split: if_splits)
    then show ?thesis
      using that [of "gui_enter s"] that [of s] assms(1) by (auto simp add: gui_enter_player)
  qed
  show ?thesis
    using s3 s1 sorted [of "player s3"] by (simp split: if_splits)
qed

lemma gameLoopWithGUI_loot:
  "loot_invariant (player s) \<Longrightarrow> gameLoopWithGUI s choices = Some s1 \<Longrightarrow>
     loot_invariant (player s1)"
proof (induction choices arbitrary: s)
  case Nil
  then show ?case by simp
next
  case (Cons c choices)
  then show ?case
    by (auto split: option.splits dest: gui_frame_loot_invariant)
qed


subsection \<open>The loops never read a missing room\<close>

lemma catalog_nonempty: "catalog \<noteq> []"
  by (simp add: catalog_def)

lemma find_room_in_range: "find_room d r = Some i \<Longrightarrow> i < length (rooms d)"
  by (auto simp add: find_room_def find_Some_iff)

lemma nogui_backtrack_index:
  assumes "- 1 \<le> currentRoomIndex d" "currentRoomIndex d < int (length (rooms d))"
  shows "rooms (snd (nogui_backtrack d)) = rooms d \<and>
    - 1 \<le> currentRoomIndex (snd (nogui_backtrack d)) \<and>
    currentRoomIndex (snd (nogui_backtrack d)) < int (length (rooms d))"
  using assms
  by (auto simp add: nogui_backtrack_def Let_def
      split: list.splits option.splits dest: find_room_in_range)

lemma nogui_switch_index:
  assumes "- 1 \<le> currentRoomIndex d" "currentRoomIndex d < int (length (rooms d))"
  shows "nogui_switch c p room d \<noteq> Fault \<and>
    (nogui_switch c p room d = Next q d1 \<longrightarrow>
       rooms d1 = rooms d \<and> 0 \<le> currentRoomIndex d1 \<and>
       currentRoomIndex d1 < int (length (rooms d)) \<or>
       d1 = d \<or> d1 = snd (nogui_backtrack d))"
  using assms
  by (auto simp add: nogui_switch_def nogui_fight_def nogui_bypass_def
      nogui_advance_current Let_def split: if_splits)

lemma gameLoop_never_crashes:
  assumes "rooms d = catalog" "- 1 \<le> currentRoomIndex d" "currentRoomIndex d < 5"
  shows "gameLoop p d input \<noteq> Crashed"
  using assms
proof (induction input arbitrary: p d)
  case Nil
  then show ?case
    by (subst gameLoop.simps)
       (auto simp add: nogui_getCurrentRoom_def nogui_advance_current deref_def
          length_catalog catalog_nonempty)
next
  case (Cons a input)
  have idx: "- 1 \<le> currentRoomIndex d" "currentRoomIndex d < int (length (rooms d))"
    using Cons.prems by (simp_all add: length_catalog)
  define d0 where "d0 = (if currentRoomIndex d = - 1
    then d\<lparr>roomStack := 0 # roomStack d, currentRoomIndex := 0\<rparr> else d)"
  have enter: "(case nogui_getCurrentRoom d of None \<Rightarrow> nogui_advanceToNextRoom d
      | Some r \<Rightarrow> Some (Some r, d)) = Some (Some (nat (currentRoomIndex d0)), d0)"
    using Cons.prems
    by (auto simp add: d0_def nogui_getCurrentRoom_def nogui_advance_current length_catalog)
  have d0: "rooms d0 = catalog" "0 \<le> currentRoomIndex d0" "currentRoomIndex d0 < 5"
    using Cons.prems by (auto simp add: d0_def)
  then have room: "deref d0 (Some (nat (currentRoomIndex d0))) =
      Some (catalog ! nat (currentRoomIndex d0))"
    by (simp add: deref_def length_catalog)
  have next_ok: "gameLoop q d1 input \<noteq> Crashed"
    if "nogui_switch c p0 room d0 = Next q d1" for c p0 room q d1
  proof -
    have "rooms d1 = catalog \<and> - 1 \<le> currentRoomIndex d1 \<and> currentRoomIndex d1 < 5"
      using nogui_switch_index [of d0 c p0 room q d1] nogui_backtrack_index [of d0] that d0
      by (auto simp add: length_catalog)
    then show ?thesis using Cons.IH by simp
  qed
  have no_fault: "nogui_switch c p0 room d0 \<noteq> Fault" for c p0 room
    using nogui_switch_index [of d0 c p0 room] d0 by (simp add: length_catalog)
  have unfold: "gameLoop p d (a # input) =
     (if getHealth p < 20 then GameOver CriticalHealth p d
      else if getMoves p \<le> 0 then GameOver OutOfMoves p d
      else (case a of
              None \<Rightarrow> gameLoop p d0 input
            | Some c \<Rightarrow>
                (case nogui_switch c (nogui_useMove p) (catalog ! nat (currentRoomIndex d0)) d0 of
                   Next p1 d1 \<Rightarrow> gameLoop p1 d1 input
                 | Over e p1 d1 \<Rightarrow> GameOver e p1 d1
                 | Fault \<Rightarrow> Crashed)))"
    by (subst gameLoop.simps) (simp add: enter room split: option.splits)
  have none: "gameLoop p d0 input \<noteq> Crashed"
    using Cons.IH [of d0 p] d0 by simp
  show ?case
    using none by (auto simp add: unfold next_ok no_fault split: option.splits step.splits)
qed


lemma gui_advance_safe:
  assumes "gui_dungeon_safe d"
  shows "gui_dungeon_safe (snd (gui_advanceToNextRoom d)) \<and>
    (\<forall>j. fst (gui_advanceToNextRoom d) = Some j \<longrightarrow> j < 5)"
proof (cases "currentRoomIndex d < 5")
  case True
  then show ?thesis
    using assms gui_advance_current [of d]
    by (auto simp add: gui_dungeon_safe_def length_catalog)
next
  case False
  then show ?thesis
    using assms by (simp add: gui_advanceToNextRoom_def gui_dungeon_safe_def length_catalog)
qed

lemma gui_backtrack_safe:
  assumes "gui_dungeon_safe d"
  shows "gui_dungeon_safe (snd (gui_backtrack d)) \<and>
    (\<forall>r. fst (gui_backtrack d) = Some r \<longrightarrow> r < 5)"
  using assms
  by (cases "roomStack d"; cases "tl (roomStack d)")
     (auto simp add: gui_backtrack_def gui_dungeon_safe_def Let_def split: option.splits)

lemma gui_switch_safe:
  assumes "gui_dungeon_safe (dungeon s)" "currentRoom s = Some i" "i < 5"
  shows "\<exists>s2. gui_switch c s = Some s2 \<and> gui_dungeon_safe (dungeon s2) \<and>
    (\<forall>j. currentRoom s2 = Some j \<longrightarrow> j < 5)"
proof -
  have room: "deref (dungeon s) (currentRoom s) = Some (catalog ! i)"
    using assms by (simp add: deref_def gui_dungeon_safe_def length_catalog)
  have fight: "\<exists>s2. gui_fight s = Some s2 \<and> gui_dungeon_safe (dungeon s2) \<and>
    (\<forall>j. currentRoom s2 = Some j \<longrightarrow> j < 5)"
    using gui_fight_won [OF room] gui_fight_lost [OF room] gui_advance_safe [OF assms(1)]
      assms
    by (cases "health (enemy (catalog ! i)) \<le> health (player s)") auto
  have bypass: "gui_dungeon_safe (dungeon (gui_bypass s)) \<and>
    (\<forall>j. currentRoom (gui_bypass s) = Some j \<longrightarrow> j < 5)"
    using gui_advance_safe [OF assms(1)] by (simp add: gui_bypass_def Let_def split_beta)
  have backtrack: "gui_dungeon_safe (dungeon (gui_backtrack_case s)) \<and>
    (\<forall>j. currentRoom (gui_backtrack_case s) = Some j \<longrightarrow> j < 5)"
    using gui_backtrack_safe [OF assms(1)] assms(2,3)
    by (auto simp add: gui_backtrack_case_def Let_def split_beta split: option.splits)
  show ?thesis
    using fight bypass backtrack assms
    by (auto simp add: gui_switch_def gui_quit_def)
qed

lemma gui_enter_safe:
  assumes "gui_safe s" "gameState s = PLAYING"
  shows "gameState (gui_enter s) = PLAYING \<and> gui_dungeon_safe (dungeon (gui_enter s)) \<and>
    (\<exists>i. currentRoom (gui_enter s) = Some i \<and> i < 5)"
proof (cases "currentRoom s")
  case None
  then have "0 \<le> currentRoomIndex (dungeon s)" "currentRoomIndex (dungeon s) < 4"
    "rooms (dungeon s) = catalog"
    using assms by (simp_all add: gui_safe_def gui_dungeon_safe_def)
  then show ?thesis
    using None assms gui_advance_current [of "dungeon s"] gui_advance_safe [of "dungeon s"]
    by (simp add: gui_enter_def gui_safe_def length_catalog)
next
  case (Some i)
  then show ?thesis
    using assms by (simp add: gui_enter_def gui_safe_def)
qed

lemma gui_check_safe:
  assumes "gui_dungeon_safe (dungeon s2)" "\<forall>j. currentRoom s2 = Some j \<longrightarrow> j < 5"
  shows "gui_safe (gui_check s2)"
  using assms by (auto simp add: gui_check_def gui_safe_def split: option.splits)

lemma gui_sorted_safe:
  "gui_safe s3 \<Longrightarrow> gui_safe (if gameState s3 = GAME_OVER
      then s3\<lparr>player := gui_sortInventory (player s3)\<rparr> else s3)"
  by (simp add: gui_safe_def)

lemma gui_frame_safe:
  assumes "gui_safe s"
  shows "\<exists>s1. gui_frame s c = Some s1 \<and> gui_safe s1"
proof (cases "gameState s = PLAYING")
  case True
  obtain i where enter: "gameState (gui_enter s) = PLAYING"
    "gui_dungeon_safe (dungeon (gui_enter s))" "currentRoom (gui_enter s) = Some i" "i < 5"
    using gui_enter_safe [OF assms True] by blast
  show ?thesis
  proof (cases "0 < c")
    case pos: True
    let ?s0 = "(gui_enter s)\<lparr>player := gui_useMove (player (gui_enter s))\<rparr>"
    obtain s2 where s2: "gui_switch c ?s0 = Some s2" "gui_dungeon_safe (dungeon s2)"
      "\<forall>j. currentRoom s2 = Some j \<longrightarrow> j < 5"
      using gui_switch_safe [of ?s0 i c] enter by auto
    then show ?thesis
      using True pos gui_sorted_safe [OF gui_check_safe [OF s2(2,3)]]
      by (simp add: gui_frame_def Let_def)
  next
    case False
    have "gui_safe (gui_enter s)"
      using enter by (simp add: gui_safe_def)
    then show ?thesis
      using True False gui_sorted_safe [of "gui_enter s"]
      by (simp add: gui_frame_def Let_def)
  qed
next
  case False
  then show ?thesis
    using gui_sorted_safe [OF assms] by (simp add: gui_frame_def)
qed

lemma gameLoopWithGUI_safe:
  "gui_safe s \<Longrightarrow> \<exists>s1. gameLoopWithGUI s choices = Some s1 \<and> gui_safe s1"
proof (induction choices arbitrary: s)
  case Nil
  then show ?case by simp
next
  case (Cons c choices)
  then obtain s1 where "gui_frame s c = Some s1" "gui_safe s1"
    using gui_frame_safe [of s c] by blast
  then show ?case using Cons.IH [of s1] by simp
qed

lemma gui_start_safe: "gui_safe (gui_start n)"
  by (simp add: gui_safe_def gui_dungeon_safe_def gui_start_def gui_Dungeon_def)


subsection \<open>The floor of the moves\<close>

text \<open>
  Claim C7, as the code has it. The SFML \<^verbatim>\<open>useMove()\<close> takes one move away when a move
  is left and does nothing otherwise, so that from a count that is not negative the result
  is the count less one, floored at 0, and no sequence of SFML player operations on a new
  player makes the moves negative. The console \<^verbatim>\<open>useMove()\<close> takes one move away
  unconditionally; the console loop calls it only while a move is left, so that every
  loop, which never fails from its initial state, always reports or waits with a player
  whose moves are at least 0.
\<close>

theorem useMove_floor:
  "moves (gui_useMove p) = (if 0 < moves p then moves p - 1 else moves p) \<and>
   (0 \<le> moves p \<longrightarrow> moves (gui_useMove p) = max 0 (moves p - 1)) \<and>
   0 \<le> moves (fold gui_player_op ops (new_Player n)) \<and>
   nogui_useMove p = p\<lparr>moves := moves p - 1\<rparr> \<and>
   (\<exists>q. result_player (gameLoop (new_Player n) nogui_Dungeon input) = Some q \<and>
        0 \<le> moves q)"
proof -
  have "0 \<le> moves (fold gui_player_op ops (new_Player n))"
    by (rule gui_player_ops_moves) (simp add: new_Player_def)
  moreover have "gameLoop (new_Player n) nogui_Dungeon input \<noteq> Crashed"
    by (rule gameLoop_never_crashes) (simp_all add: nogui_Dungeon_def)
  then obtain q where q: "result_player (gameLoop (new_Player n) nogui_Dungeon input) = Some q"
    by (cases "gameLoop (new_Player n) nogui_Dungeon input") simp_all
  then have "0 \<le> moves q"
    using gameLoop_moves [of "new_Player n" nogui_Dungeon input q]
    by (simp add: new_Player_def)
  then have "\<exists>q. result_player (gameLoop (new_Player n) nogui_Dungeon input) = Some q \<and>
        0 \<le> moves q"
    using q by blast
  ultimately show ?thesis
    by (simp add: gui_useMove_def nogui_useMove_def)
qed

text \<open>
  The SFML operation at 0 and at 10 moves, and the console game that uses all ten moves.
\<close>

theorem useMove_floor_witness:
  "moves (gui_useMove ((new_Player ''p'')\<lparr>moves := 0\<rparr>)) = 0 \<and>
   moves (gui_useMove (new_Player ''p'')) = 9 \<and>
   result_player (gameLoop (new_Player ''p'') nogui_Dungeon
     [Some 1, Some 1, Some 3, Some 3, Some 3, Some 3, Some 3, Some 3, Some 3, Some 3]) =
     Some \<lparr>name = ''p'', health = 60,
        inventory = [''5 Coins'', ''Armour'', ''5 Coins'', ''Health Booster Potion''],
        moves = 0, coins = 20, enemiesDefeated = 2\<rparr> \<and>
   0 \<le> moves \<lparr>name = ''p'', health = 60,
        inventory = [''5 Coins'', ''Armour'', ''5 Coins'', ''Health Booster Potion''],
        moves = 0, coins = 20, enemiesDefeated = 2\<rparr>"
  using useMove_floor [of "(new_Player ''p'')\<lparr>moves := 0\<rparr>" "[]" "''p''"
      "[Some 1, Some 1, Some 3, Some 3, Some 3, Some 3, Some 3, Some 3, Some 3, Some 3]"]
    useMove_floor [of "new_Player ''p''" "[]" "''p''" "[]"]
    nogui_out_of_moves_run [of "''p''"]
  by (simp add: new_Player_def)

text \<open>
  The console \<^verbatim>\<open>useMove()\<close> at 0 moves gives \<open>-1\<close>, and eleven calls on a new player
  leave \<open>-1\<close> moves.
\<close>

theorem nogui_useMove_counterexample:
  "moves (nogui_useMove ((new_Player ''p'')\<lparr>moves := 0\<rparr>)) = - 1 \<and>
   moves (fold nogui_player_op
     [UseMove, UseMove, UseMove, UseMove, UseMove, UseMove, UseMove, UseMove, UseMove,
      UseMove, UseMove] (new_Player ''p'')) = - 1"
  by (simp add: nogui_useMove_def new_Player_def)

subsection \<open>The equations between coins, defeated enemies and inventory\<close>

text \<open>
  Claim C9. Whatever the input, the console loop and the SFML loop started with a new
  player never fail and end (or wait) with a player whose coins are ten times and whose
  inventory length is twice the number of defeated enemies. A case of either
  \<^verbatim>\<open>switch\<close> changes coins, defeated enemies or the items of the inventory only when it
  is a won fight, and then by 10 coins, one enemy and the two treasure items of the room
  together (the console escape branches also sort the inventory, which keeps its items).
\<close>

theorem loot_equations:
  "(\<exists>q. result_player (gameLoop (new_Player n) nogui_Dungeon input) = Some q \<and>
        coins q = 10 * enemiesDefeated q \<and>
        int (length (inventory q)) = 2 * enemiesDefeated q) \<and>
   (\<exists>s. gameLoopWithGUI (gui_start n) choices = Some s \<and>
        coins (player s) = 10 * enemiesDefeated (player s) \<and>
        int (length (inventory (player s))) = 2 * enemiesDefeated (player s)) \<and>
   (nogui_switch c p room d = Next p1 d1 \<or> nogui_switch c p room d = Over e p1 d1 \<longrightarrow>
      (if c = 1 \<and> health (enemy room) \<le> health p
       then coins p1 = coins p + 10 \<and> enemiesDefeated p1 = enemiesDefeated p + 1 \<and>
            mset (inventory p1) =
              mset (inventory p) + {#item1 (treasure room), item2 (treasure room)#}
       else coins p1 = coins p \<and> enemiesDefeated p1 = enemiesDefeated p \<and>
            mset (inventory p1) = mset (inventory p))) \<and>
   (deref (dungeon g) (currentRoom g) = Some groom \<and> gui_switch c g = Some g1 \<longrightarrow>
      (if c = 1 \<and> health (enemy groom) \<le> health (player g)
       then coins (player g1) = coins (player g) + 10 \<and>
            enemiesDefeated (player g1) = enemiesDefeated (player g) + 1 \<and>
            inventory (player g1) =
              inventory (player g) @ [item1 (treasure groom), item2 (treasure groom)]
       else coins (player g1) = coins (player g) \<and>
            enemiesDefeated (player g1) = enemiesDefeated (player g) \<and>
            inventory (player g1) = inventory (player g)))"
proof -
  have start: "loot_invariant (new_Player n)"
    by (simp add: loot_invariant_def new_Player_def)
  have "gameLoop (new_Player n) nogui_Dungeon input \<noteq> Crashed"
    by (rule gameLoop_never_crashes) (simp_all add: nogui_Dungeon_def)
  then obtain q where q: "result_player (gameLoop (new_Player n) nogui_Dungeon input) = Some q"
    by (cases "gameLoop (new_Player n) nogui_Dungeon input") simp_all
  then have "loot_invariant q"
    using gameLoop_loot [OF start] by blast
  then have console: "\<exists>q. result_player (gameLoop (new_Player n) nogui_Dungeon input) = Some q \<and>
        coins q = 10 * enemiesDefeated q \<and>
        int (length (inventory q)) = 2 * enemiesDefeated q"
    using q by (auto simp add: loot_invariant_def)
  obtain s where s: "gameLoopWithGUI (gui_start n) choices = Some s"
    using gameLoopWithGUI_safe [OF gui_start_safe, of n choices] by blast
  then have "loot_invariant (player s)"
    using gameLoopWithGUI_loot [of "gui_start n" choices s] start
    by (simp add: gui_start_def)
  then have sfml: "\<exists>s. gameLoopWithGUI (gui_start n) choices = Some s \<and>
        coins (player s) = 10 * enemiesDefeated (player s) \<and>
        int (length (inventory (player s))) = 2 * enemiesDefeated (player s)"
    using s by (auto simp add: loot_invariant_def)
  show ?thesis
    using console sfml nogui_switch_loot [of c p room d p1 d1 e]
      gui_switch_loot [of g groom c g1]
    by blast
qed

lemma gui_two_fights_run:
  "gameLoopWithGUI (gui_start ''p'') [1, 1] =
     Some \<lparr>player = \<lparr>name = ''p'', health = 40,
              inventory = [''5 Coins'', ''Health Booster Potion'', ''Health Booster Potion'',
                           ''Armour''],
              moves = 8, coins = 20, enemiesDefeated = 2\<rparr>,
           dungeon = gui_Dungeon\<lparr>roomStack := [2, 1, 0], currentRoomIndex := 3\<rparr>,
           gameState = PLAYING, currentRoom = Some 3, gameOverMessage = None\<rparr>"
  by code_simp

lemma nogui_bypass_first_room:
  "nogui_switch 2 (new_Player ''p'') (catalog ! 0) nogui_first_room =
     Next ((new_Player ''p'')\<lparr>health := 95\<rparr>)
       (nogui_first_room\<lparr>roomStack := [1, 0], currentRoomIndex := 1\<rparr>)"
  by code_simp

lemma gui_bypass_entered:
  "gui_switch 2 gui_entered =
     Some (gui_entered\<lparr>player := (new_Player ''p'')\<lparr>health := 95\<rparr>,
             dungeon := gui_first_advance\<lparr>roomStack := [1, 0], currentRoomIndex := 2\<rparr>,
             currentRoom := Some 2\<rparr>)"
  by code_simp

lemma nogui_fight_first_room:
  "nogui_switch 1 (new_Player ''p'') (catalog ! 0) nogui_first_room =
     Next \<lparr>name = ''p'', health = 85, inventory = [''5 Coins'', ''Armour''], moves = 10,
            coins = 10, enemiesDefeated = 1\<rparr>
       (nogui_first_room\<lparr>roomStack := [1, 0], currentRoomIndex := 1\<rparr>)"
  by code_simp

text \<open>
  Two fights and a quit on the console, two fights in the SFML game, and a won fight and
  a bypass in the first room.
\<close>

theorem loot_equations_witness:
  "result_player (gameLoop (new_Player ''p'') nogui_Dungeon [Some 1, Some 1, Some 4]) =
     Some \<lparr>name = ''p'', health = 60,
        inventory = [''5 Coins'', ''Armour'', ''5 Coins'', ''Health Booster Potion''],
        moves = 7, coins = 20, enemiesDefeated = 2\<rparr> \<and>
   map_option (\<lambda>s. (coins (player s), enemiesDefeated (player s),
       length (inventory (player s)))) (gameLoopWithGUI (gui_start ''p'') [1, 1]) =
     Some (20, 2, 4) \<and>
   nogui_switch 1 (new_Player ''p'') (catalog ! 0) nogui_first_room =
     Next \<lparr>name = ''p'', health = 85, inventory = [''5 Coins'', ''Armour''], moves = 10,
            coins = 10, enemiesDefeated = 1\<rparr>
       (nogui_first_room\<lparr>roomStack := [1, 0], currentRoomIndex := 1\<rparr>) \<and>
   nogui_switch 2 (new_Player ''p'') (catalog ! 0) nogui_first_room =
     Next ((new_Player ''p'')\<lparr>health := 95\<rparr>)
       (nogui_first_room\<lparr>roomStack := [1, 0], currentRoomIndex := 1\<rparr>) \<and>
   coins ((new_Player ''p'')\<lparr>health := 95\<rparr>) = coins (new_Player ''p'') \<and>
   deref (dungeon gui_entered) (currentRoom gui_entered) = Some (catalog ! 1) \<and>
   gui_switch 2 gui_entered =
     Some (gui_entered\<lparr>player := (new_Player ''p'')\<lparr>health := 95\<rparr>,
             dungeon := gui_first_advance\<lparr>roomStack := [1, 0], currentRoomIndex := 2\<rparr>,
             currentRoom := Some 2\<rparr>) \<and>
   inventory ((new_Player ''p'')\<lparr>health := 95\<rparr>) = inventory (player gui_entered)"
proof -
  have room: "deref (dungeon gui_entered) (currentRoom gui_entered) = Some (catalog ! 1)"
    by (simp add: gui_entered_def gui_first_advance_def deref_def length_catalog)
  show ?thesis
    using loot_equations [of "''p''" "[Some 1, Some 1, Some 4]" "[1, 1]" 2 "new_Player ''p''"
        "catalog ! 0" nogui_first_room "(new_Player ''p'')\<lparr>health := 95\<rparr>"
        "nogui_first_room\<lparr>roomStack := [1, 0], currentRoomIndex := 1\<rparr>" Escaped
        gui_entered "catalog ! 1"
        "gui_entered\<lparr>player := (new_Player ''p'')\<lparr>health := 95\<rparr>,
             dungeon := gui_first_advance\<lparr>roomStack := [1, 0], currentRoomIndex := 2\<rparr>,
             currentRoom := Some 2\<rparr>"]
      loot_equations [of "''p''" "[]" "[]" 1 "new_Player ''p''"
        "catalog ! 0" nogui_first_room
        "\<lparr>name = ''p'', health = 85, inventory = [''5 Coins'', ''Armour''], moves = 10,
            coins = 10, enemiesDefeated = 1\<rparr>"
        "nogui_first_room\<lparr>roomStack := [1, 0], currentRoomIndex := 1\<rparr>" Escaped
        gui_entered "catalog ! 1" gui_entered]
      nogui_quit_run [of "''p''"] gui_two_fights_run nogui_bypass_first_room
      nogui_fight_first_room gui_bypass_entered room
    by (simp add: gui_entered_def new_Player_def)
qed

section \<open>The whole turn of a fight\<close>







subsection \<open>When the loops resolve a choice\<close>






subsection \<open>Fights in play\<close>













section \<open>Five fights from a new game\<close>

text \<open>
  Five Fight inputs on a new console game: three fights are won, the player reaches
  "Silver" (threshold 50) with health 25, the fourth fight is lost, and the game ends with
  critical health before the fifth input is read.
\<close>

lemma nogui_three_fights_run:
  "gameLoop (new_Player n) nogui_Dungeon [Some 1, Some 1, Some 1] =
     AwaitingInput
       \<lparr>name = n, health = 25,
        inventory = [''5 Coins'', ''Armour'', ''5 Coins'', ''Health Booster Potion'',
                     ''Health Booster Potion'', ''Armour''],
        moves = 7, coins = 30, enemiesDefeated = 3\<rparr>
       (nogui_Dungeon\<lparr>roomStack := [3, 2, 1, 0], currentRoomIndex := 3\<rparr>)"
  by code_simp

lemma nogui_five_fights_run:
  "gameLoop (new_Player n) nogui_Dungeon [Some 1, Some 1, Some 1, Some 1, Some 1] =
     GameOver CriticalHealth
       \<lparr>name = n, health = 15,
        inventory = [''5 Coins'', ''Armour'', ''5 Coins'', ''Health Booster Potion'',
                     ''Health Booster Potion'', ''Armour''],
        moves = 6, coins = 30, enemiesDefeated = 3\<rparr>
       (nogui_Dungeon\<lparr>roomStack := [3, 2, 1, 0], currentRoomIndex := 3\<rparr>)"
  by code_simp

end
